theory Spec2Isabelle
  imports Main "HOL-Library.Word"
begin

unbundle bit_operations_syntax

section \<open>Values, errors and outcomes\<close>

text \<open>
  A Go \<^verbatim>\<open>string\<close> is a sequence of bytes, and crypto.go converts freely between
  \<^verbatim>\<open>string\<close> and \<^verbatim>\<open>[]byte\<close>: both are byte lists here. A Go \<^verbatim>\<open>error\<close> is
  \<open>None\<close> for \<^verbatim>\<open>nil\<close> and \<open>Some m\<close> with \<open>m\<close> the text of \<^verbatim>\<open>err.Error()\<close>
  otherwise (the code compares and concatenates that text).
\<close>

type_synonym byte = "8 word"
type_synonym bytes = "byte list"
type_synonym gerror = "string option"

definition str :: "string \<Rightarrow> bytes" where
  "str s = map of_char s"

text \<open>
  Every call of a stage of the pipeline, and every call of the logger, leaves an event.
  An outcome is a run-time panic, or a returned value with the events of the run in
  order.
\<close>

datatype event =
    HashStage | DeflateStage | InflateStage | XorStage | CipherInit | RandomStage
  | SealStage | OpenStage | HexEncodeStage | HexDecodeStage | LogCall

datatype 'a outcome = Panic | Done 'a "event list"

fun emit :: "event list \<Rightarrow> 'a outcome \<Rightarrow> 'a outcome" where
  "emit t Panic = Panic"
| "emit t (Done a u) = Done a (t @ u)"

fun andThen :: "'a outcome \<Rightarrow> ('a \<Rightarrow> 'b outcome) \<Rightarrow> 'b outcome" where
  "andThen Panic f = Panic"
| "andThen (Done a t) f = emit t (f a)"

definition ret :: "'a \<Rightarrow> 'a outcome" where
  "ret a = Done a []"

definition call :: "event \<Rightarrow> 'a \<Rightarrow> 'a outcome" where
  "call e a = Done a [e]"

fun returned :: "'a outcome \<Rightarrow> 'a option" where
  "returned Panic = None"
| "returned (Done a t) = Some a"

fun events :: "'a outcome \<Rightarrow> event list" where
  "events Panic = []"
| "events (Done a t) = t"

text \<open>
  Modelled from the spec: \<^verbatim>\<open>fail\<close> and \<^verbatim>\<open>debug\<close> are not in crypto.go; they belong to
  the logging infrastructure that the spec names as an external collaborator. They
  write a line to the log and return.
\<close>

definition fail :: "unit outcome" where
  "fail = call LogCall ()"

definition debug :: "unit outcome" where
  "debug = call LogCall ()"

section \<open>The Go standard library, as a parameter\<close>

text \<open>
  crypto.go is glue around \<^verbatim>\<open>crypto/sha256\<close>, \<^verbatim>\<open>compress/zlib\<close>, \<^verbatim>\<open>crypto/aes\<close>,
  \<^verbatim>\<open>crypto/cipher\<close>, \<^verbatim>\<open>crypto/rand\<close> and \<^verbatim>\<open>io\<close>. Each call the code makes into them is
  a field; every result the code inspects (an error, a byte slice) is in the field's
  result type.
\<close>

record go_lib =
  sha256_Write :: "bytes \<Rightarrow> bytes \<times> gerror"
    \<comment> \<open>\<^verbatim>\<open>hasher.Write(p)\<close> on a fresh hasher: the bytes absorbed, and the error\<close>
  sha256_Sum :: "bytes \<Rightarrow> bytes"
    \<comment> \<open>\<^verbatim>\<open>hasher.Sum(nil)\<close> of a hasher that absorbed these bytes\<close>
  zlib_Write :: "bytes \<Rightarrow> string + bytes"
    \<comment> \<open>\<^verbatim>\<open>writer.Write(p)\<close>: its error, or the buffer after \<^verbatim>\<open>writer.Close()\<close>\<close>
  zlib_NewReader :: "bytes \<Rightarrow> gerror"
    \<comment> \<open>the error of \<^verbatim>\<open>zlib.NewReader\<close> over these bytes\<close>
  zlib_Copy :: "bytes \<Rightarrow> bytes \<times> gerror"
    \<comment> \<open>\<^verbatim>\<open>io.Copy(dataBuffer, reader)\<close>: what reached the buffer, and the error\<close>
  aes_NewCipher :: "bytes \<Rightarrow> gerror"
  cipher_NewGCM :: "bytes \<Rightarrow> gerror"
    \<comment> \<open>the error of \<^verbatim>\<open>cipher.NewGCM\<close> on the block made from this key\<close>
  rand_ReadFull :: "nat \<Rightarrow> string + bytes"
    \<comment> \<open>\<^verbatim>\<open>io.ReadFull(rand.Reader, buf)\<close> for a buffer of that many bytes\<close>
  gcm_Seal :: "bytes \<Rightarrow> bytes \<Rightarrow> bytes \<Rightarrow> bytes"
    \<comment> \<open>key, nonce, plaintext to ciphertext and tag\<close>
  gcm_Open :: "bytes \<Rightarrow> bytes \<Rightarrow> bytes \<Rightarrow> string + bytes"
    \<comment> \<open>key, nonce, ciphertext and tag to the plaintext, or the authentication error\<close>

subsection \<open>strings.TrimSpace\<close>

text \<open>
  \<^verbatim>\<open>strings.TrimSpace\<close> removes, from both ends, every rune for which
  \<^verbatim>\<open>unicode.IsSpace\<close> holds: tab, line feed, vertical tab, form feed, carriage return,
  space, U+0085, U+00A0, U+1680, U+2000 to U+200A, U+2028, U+2029, U+202F, U+205F and
  U+3000. A byte that does not start a valid UTF-8 sequence decodes as the error rune,
  which is not white space. The list holds the UTF-8 encodings of the white-space runes.
\<close>

definition spaceRunes :: "bytes list" where
  "spaceRunes =
    [[0x09], [0x0A], [0x0B], [0x0C], [0x0D], [0x20],
     [0xC2, 0x85], [0xC2, 0xA0], [0xE1, 0x9A, 0x80],
     [0xE2, 0x80, 0x80], [0xE2, 0x80, 0x81], [0xE2, 0x80, 0x82], [0xE2, 0x80, 0x83],
     [0xE2, 0x80, 0x84], [0xE2, 0x80, 0x85], [0xE2, 0x80, 0x86], [0xE2, 0x80, 0x87],
     [0xE2, 0x80, 0x88], [0xE2, 0x80, 0x89], [0xE2, 0x80, 0x8A],
     [0xE2, 0x80, 0xA8], [0xE2, 0x80, 0xA9], [0xE2, 0x80, 0xAF],
     [0xE2, 0x81, 0x9F], [0xE3, 0x80, 0x80]]"

definition startsWith :: "bytes \<Rightarrow> bytes \<Rightarrow> bool" where
  "startsWith s p \<longleftrightarrow> take (length p) s = p"

definition endsWith :: "bytes \<Rightarrow> bytes \<Rightarrow> bool" where
  "endsWith s p \<longleftrightarrow> length p \<le> length s \<and> drop (length s - length p) s = p"

definition leadingSpace :: "bytes \<Rightarrow> bytes option" where
  "leadingSpace s = find (startsWith s) spaceRunes"

definition trailingSpace :: "bytes \<Rightarrow> bytes option" where
  "trailingSpace s = find (endsWith s) spaceRunes"

lemma spaceRunes_nonempty: "p \<in> set spaceRunes \<Longrightarrow> 0 < length p"
  by (auto simp: spaceRunes_def)

lemma leadingSpace_shorter:
  assumes "leadingSpace s = Some p"
  shows "length (drop (length p) s) < length s"
proof -
  from assms have p: "p \<in> set spaceRunes" and t: "take (length p) s = p"
    by (auto simp: leadingSpace_def startsWith_def find_Some_iff)
  from p have "0 < length p" by (rule spaceRunes_nonempty)
  moreover from t this have "s \<noteq> []" by auto
  ultimately show ?thesis by simp
qed

lemma trailingSpace_shorter:
  assumes "trailingSpace s = Some p"
  shows "length (take (length s - length p) s) < length s"
proof -
  from assms have p: "p \<in> set spaceRunes" and t: "length p \<le> length s"
    by (auto simp: trailingSpace_def endsWith_def find_Some_iff)
  from p have "0 < length p" by (rule spaceRunes_nonempty)
  with t have "0 < length s" by linarith
  with \<open>0 < length p\<close> have "length s - length p < length s" by linarith
  then show ?thesis by simp
qed

function TrimLeft :: "bytes \<Rightarrow> bytes" where
  "TrimLeft s =
     (case leadingSpace s of
        None \<Rightarrow> s
      | Some p \<Rightarrow> TrimLeft (drop (length p) s))"
  by pat_completeness auto
termination
  by (relation "measure length") (auto dest: leadingSpace_shorter)

function TrimRight :: "bytes \<Rightarrow> bytes" where
  "TrimRight s =
     (case trailingSpace s of
        None \<Rightarrow> s
      | Some p \<Rightarrow> TrimRight (take (length s - length p) s))"
  by pat_completeness auto
termination
  by (relation "measure length") (auto dest: trailingSpace_shorter)

declare TrimLeft.simps [simp del] TrimRight.simps [simp del]

definition TrimSpace :: "bytes \<Rightarrow> bytes" where
  "TrimSpace s = TrimRight (TrimLeft s)"

section \<open>Helpers of the repository that crypto.go calls\<close>

text \<open>
  Modelled from the spec: \<^verbatim>\<open>xor\<close> is not in crypto.go. Spec 4.3: for index \<open>i\<close>,
  \<open>output[i] = data[i] XOR key[i mod len(key)]\<close>; a key of length 0 is invalid and
  never a silent no-op: indexing it is a run-time panic, which needs a byte of data
  to index for.
\<close>

definition xor_bytes :: "bytes \<Rightarrow> bytes \<Rightarrow> bytes" where
  "xor_bytes key data = map (\<lambda>i. (data ! i) XOR (key ! (i mod length key))) [0..<length data]"

definition xor_str :: "bytes \<Rightarrow> bytes \<Rightarrow> bytes outcome" where
  "xor_str key data =
     (if key = [] \<and> data \<noteq> [] then Panic else call XorStage (xor_bytes key data))"

text \<open>
  Modelled from the spec: \<^verbatim>\<open>hexEncode\<close> and \<^verbatim>\<open>hexDecode\<close> are not in crypto.go.
  Spec 4.5: standard hexadecimal; decode rejects odd-length or non-hex-digit input
  with a format error; the round trip is exact. The encoder writes lower-case digits,
  the decoder reads both cases; on an error the decoder returns the empty string.
\<close>

definition hexDigit :: "byte \<Rightarrow> byte" where
  "hexDigit d = (if d < 10 then 0x30 + d else 0x57 + d)"

definition hexEncode_bytes :: "bytes \<Rightarrow> bytes" where
  "hexEncode_bytes bs = concat (map (\<lambda>b. [hexDigit (drop_bit 4 b), hexDigit (b AND 0x0F)]) bs)"

definition hexEncode :: "bytes \<Rightarrow> bytes outcome" where
  "hexEncode bs = call HexEncodeStage (hexEncode_bytes bs)"

definition fromHexChar :: "byte \<Rightarrow> byte option" where
  "fromHexChar c =
     (if 0x30 \<le> c \<and> c \<le> 0x39 then Some (c - 0x30)
      else if 0x61 \<le> c \<and> c \<le> 0x66 then Some (c - 0x57)
      else if 0x41 \<le> c \<and> c \<le> 0x46 then Some (c - 0x37)
      else None)"

fun hexDecode_bytes :: "bytes \<Rightarrow> bytes option" where
  "hexDecode_bytes [] = Some []"
| "hexDecode_bytes [c] = None"
| "hexDecode_bytes (p # q # rest) =
     (case (fromHexChar p, fromHexChar q, hexDecode_bytes rest) of
        (Some a, Some b, Some bs) \<Rightarrow> Some ((push_bit 4 a OR b) # bs)
      | _ \<Rightarrow> None)"

definition hexDecode :: "bytes \<Rightarrow> (bytes \<times> gerror) outcome" where
  "hexDecode s =
     call HexDecodeStage
       (case hexDecode_bytes s of
          Some bs \<Rightarrow> (bs, None)
        | None \<Rightarrow> ([], Some ''hex: odd length or invalid digit''))"

section \<open>crypto.go\<close>

text \<open>
  The three secrets are build-time constants of the file (\<^verbatim>\<open>make release\<close> replaces
  them), so the functions take them as a record; \<open>source_secrets\<close> are the placeholders
  the file holds.
\<close>

record secrets =
  randomString :: bytes
  byteKey :: bytes
  randomBytes :: bytes

definition source_secrets :: secrets where
  "source_secrets = \<lparr>randomString = str ''HASH_HERE'', byteKey = [0x01], randomBytes = [1]\<rparr>"

text \<open>
  Lines 52 to 65 of \<^verbatim>\<open>encryptConfig\<close> and, word for word, lines 87 to 100 of
  \<^verbatim>\<open>decryptConfig\<close>: the key of the XOR stage, and the error of the early return.
\<close>

definition deriveKey :: "go_lib \<Rightarrow> secrets \<Rightarrow> (bytes \<times> gerror) outcome" where
  "deriveKey L S =
     (if length (randomString S) < 64 then
        andThen (call HashStage (sha256_Write L (randomString S))) (\<lambda>(absorbed, err).
          case err of
            Some e \<Rightarrow> andThen fail (\<lambda>_. ret ([], Some e))
          | None \<Rightarrow> ret (sha256_Sum L absorbed, None))
      else ret (randomString S, None))"

text \<open>
  Lines 192 to 199 of \<^verbatim>\<open>encryptString\<close>: the AES key made from the password, and the
  error of \<^verbatim>\<open>hasher.Write\<close>. \<^verbatim>\<open>decryptString\<close> (lines 242 to 247) makes the key the same
  way, but only logs the error.
\<close>

definition cipherKey :: "go_lib \<Rightarrow> bytes \<Rightarrow> (bytes \<times> gerror) outcome" where
  "cipherKey L password =
     andThen (call HashStage (sha256_Write L password)) (\<lambda>(absorbed, err).
       ret (sha256_Sum L absorbed, err))"

definition encryptString :: "go_lib \<Rightarrow> bytes \<Rightarrow> bytes \<Rightarrow> bytes outcome" where
  "encryptString L password plainText =
     andThen (cipherKey L password) (\<lambda>(key, err).
       case err of
         Some e \<Rightarrow> andThen fail (\<lambda>_. ret [])
       | None \<Rightarrow>
          (let paddingArray = replicate (16 - length plainText mod 16) (0x20 :: byte);
               plainText' = plainText @ paddingArray
           in if length plainText' mod 16 \<noteq> 0 then andThen fail (\<lambda>_. ret [])
              else
                andThen (call CipherInit (aes_NewCipher L key)) (\<lambda>err.
                  case err of
                    Some e \<Rightarrow> andThen fail (\<lambda>_. ret [])
                  | None \<Rightarrow>
                     andThen (call RandomStage (rand_ReadFull L 12)) (\<lambda>r.
                       case r of
                         Inl e \<Rightarrow> andThen fail (\<lambda>_. ret [])
                       | Inr nonce \<Rightarrow>
                          andThen (call CipherInit (cipher_NewGCM L key)) (\<lambda>err.
                            case err of
                              Some e \<Rightarrow> andThen fail (\<lambda>_. ret [])
                            | None \<Rightarrow>
                               andThen (call SealStage (gcm_Seal L key nonce plainText'))
                                 (\<lambda>ciphertext. ret (nonce @ ciphertext)))))))"

definition decryptString :: "go_lib \<Rightarrow> bytes \<Rightarrow> bytes \<Rightarrow> bytes outcome" where
  "decryptString L password ciphertext =
     andThen (cipherKey L password) (\<lambda>(key, err).
     andThen (case err of Some e \<Rightarrow> fail | None \<Rightarrow> ret ()) (\<lambda>_.
       if length ciphertext < 12 then Panic
       else
         (let iv = take 12 ciphertext;
              sealed = drop 12 ciphertext
          in andThen (call CipherInit (aes_NewCipher L key)) (\<lambda>err.
               case err of
                 Some e \<Rightarrow> andThen fail (\<lambda>_. ret [])
               | None \<Rightarrow>
                  andThen (call CipherInit (cipher_NewGCM L key)) (\<lambda>err.
                    case err of
                      Some e \<Rightarrow> andThen fail (\<lambda>_. ret [])
                    | None \<Rightarrow>
                       andThen (call OpenStage (gcm_Open L key iv sealed)) (\<lambda>r.
                         case r of
                           Inl e \<Rightarrow> andThen fail (\<lambda>_. ret [])
                         | Inr plainText \<Rightarrow> ret (TrimSpace plainText)))))))"

definition encryptConfig :: "go_lib \<Rightarrow> secrets \<Rightarrow> bytes \<Rightarrow> (bytes \<times> gerror) outcome" where
  "encryptConfig L S plainText =
     andThen (deriveKey L S) (\<lambda>(key, err).
       case err of
         Some e \<Rightarrow> ret ([], Some e)
       | None \<Rightarrow>
          andThen (call DeflateStage (zlib_Write L plainText)) (\<lambda>w.
            case w of
              Inl e \<Rightarrow> ret ([], Some e)
            | Inr compressedFile \<Rightarrow>
               andThen (xor_str key compressedFile) (\<lambda>xorConfig.
               andThen (encryptString L (byteKey S) xorConfig) (\<lambda>sealed.
                 ret (sealed, None)))))"

text \<open>
  Lines 108 to 141 of \<^verbatim>\<open>decryptConfig\<close>: the zlib reader over the unmasked bytes, the
  copy with its tolerated error, and the check of the result.
\<close>

definition sanityCheck :: "bytes \<Rightarrow> (bytes \<times> gerror) outcome" where
  "sanityCheck decryptedConfig =
     (if decryptedConfig = [] then ret ([], Some ''decrypted config is empty'')
      else ret (decryptedConfig, None))"

definition inflateConfig :: "go_lib \<Rightarrow> bytes \<Rightarrow> (bytes \<times> gerror) outcome" where
  "inflateConfig L z =
     andThen (call InflateStage (zlib_NewReader L z)) (\<lambda>err.
       case err of
         Some e \<Rightarrow> ret ([], Some ''error creating zlib reader'')
       | None \<Rightarrow>
          (case zlib_Copy L z of
             (dataBuffer, None) \<Rightarrow> sanityCheck dataBuffer
           | (dataBuffer, Some m) \<Rightarrow>
               if m = ''unexpected EOF'' then andThen debug (\<lambda>_. sanityCheck dataBuffer)
               else ret ([], Some (''error decrypting or decompressing zlib data: '' @ m))))"

definition decryptConfig :: "go_lib \<Rightarrow> secrets \<Rightarrow> bytes \<Rightarrow> (bytes \<times> gerror) outcome" where
  "decryptConfig L S cipherText =
     andThen (deriveKey L S) (\<lambda>(key, err).
       case err of
         Some e \<Rightarrow> ret ([], Some e)
       | None \<Rightarrow>
          andThen (decryptString L (byteKey S) cipherText) (\<lambda>opened.
          andThen (xor_str key opened) (\<lambda>unmasked.
            inflateConfig L unmasked)))"

definition tossKey :: "secrets \<Rightarrow> bytes" where
  "tossKey S = randomBytes S"

text \<open>
  \<^verbatim>\<open>obfuscateData\<close> and \<^verbatim>\<open>deobfuscateData\<close> work on \<^verbatim>\<open>*datum\<close>: the result is the
  string the pointer holds when the function returns, with the returned error.
\<close>

definition obfuscateData :: "go_lib \<Rightarrow> secrets \<Rightarrow> bytes \<Rightarrow> (bytes \<times> gerror) outcome" where
  "obfuscateData L S datum =
     (if datum = [] then ret (datum, None)
      else
        andThen (encryptConfig L S datum) (\<lambda>(datum1, err).
          case err of
            None \<Rightarrow>
              andThen (xor_str (tossKey S) datum1) (\<lambda>masked.
              andThen (hexEncode masked) (\<lambda>datum2. ret (datum2, None)))
          | Some e \<Rightarrow> andThen fail (\<lambda>_. ret (datum1, Some e))))"

definition deobfuscateData :: "go_lib \<Rightarrow> secrets \<Rightarrow> bytes \<Rightarrow> (bytes \<times> gerror) outcome" where
  "deobfuscateData L S datum =
     (if datum = [] then ret (datum, None)
      else
        andThen (hexDecode datum) (\<lambda>(datum1, err).
          case err of
            Some e \<Rightarrow> andThen fail (\<lambda>_. ret (datum1, Some e))
          | None \<Rightarrow>
             andThen (xor_str (tossKey S) datum1) (\<lambda>datum2.
             andThen (decryptConfig L S datum2) (\<lambda>(datum3, err).
               case err of
                 Some e \<Rightarrow> andThen fail (\<lambda>_. ret (datum3, Some e))
               | None \<Rightarrow> ret (datum3, None)))))"

section \<open>What the code relies on from the library\<close>

text \<open>
  The documented behaviour of the Go library that the theorems below name as
  hypotheses: \<^verbatim>\<open>hash.Hash\<close>'s \<^verbatim>\<open>Write\<close> never returns an error and absorbs all it is given;
  a SHA-256 digest has 32 bytes; \<^verbatim>\<open>aes.NewCipher\<close> accepts a 32-byte key and
  \<^verbatim>\<open>cipher.NewGCM\<close> an AES block; opening what was sealed under the same key and
  nonce gives the plaintext back; \<^verbatim>\<open>io.ReadFull\<close> fills the 12-byte nonce;
  \<^verbatim>\<open>zlib.NewReader\<close> fails on fewer than two header bytes, and on a first byte whose
  low four bits (the compression method) are not 8.
\<close>

definition hasher_total :: "go_lib \<Rightarrow> bool" where
  "hasher_total L \<longleftrightarrow> (\<forall>p. sha256_Write L p = (p, None))"

definition digest_32 :: "go_lib \<Rightarrow> bool" where
  "digest_32 L \<longleftrightarrow> (\<forall>p. length (sha256_Sum L p) = 32)"

definition cipher_ready :: "go_lib \<Rightarrow> bool" where
  "cipher_ready L \<longleftrightarrow>
     (\<forall>k. length k = 32 \<longrightarrow> aes_NewCipher L k = None \<and> cipher_NewGCM L k = None)"

definition aead_correct :: "go_lib \<Rightarrow> bool" where
  "aead_correct L \<longleftrightarrow> (\<forall>k n p. gcm_Open L k n (gcm_Seal L k n p) = Inr p)"

definition nonce_12 :: "go_lib \<Rightarrow> bool" where
  "nonce_12 L \<longleftrightarrow> (\<exists>n. rand_ReadFull L 12 = Inr n \<and> length n = 12)"

definition zlib_needs_header :: "go_lib \<Rightarrow> bool" where
  "zlib_needs_header L \<longleftrightarrow> (\<forall>z. length z < 2 \<longrightarrow> zlib_NewReader L z \<noteq> None)"

definition zlib_needs_deflate :: "go_lib \<Rightarrow> bool" where
  "zlib_needs_deflate L \<longleftrightarrow> (\<forall>c z. c AND 0x0F \<noteq> 8 \<longrightarrow> zlib_NewReader L (c # z) \<noteq> None)"

text \<open>
  What an authenticated cipher adds, for the key in use: an envelope that differs in
  one byte from the nonce and the sealed text of some plaintext is rejected. For
  AES-GCM a changed byte of the nonce or of the tag is always rejected, a changed byte
  of the ciphertext unless the hash key of the cipher key is zero.
\<close>

definition tamper_evident :: "go_lib \<Rightarrow> bytes \<Rightarrow> bool" where
  "tamper_evident L k \<longleftrightarrow>
     (\<forall>n p i b. length n = 12 \<and> i < length (n @ gcm_Seal L k n p)
        \<and> b \<noteq> (n @ gcm_Seal L k n p) ! i \<longrightarrow>
        (\<exists>m. gcm_Open L k (take 12 ((n @ gcm_Seal L k n p)[i := b]))
               (drop 12 ((n @ gcm_Seal L k n p)[i := b])) = Inl m))"

text \<open>
  What \<open>deriveKey\<close> returns when the hasher works, and the plaintext with the padding
  that \<^verbatim>\<open>encryptString\<close> appends before it seals.
\<close>

definition secretKey :: "go_lib \<Rightarrow> secrets \<Rightarrow> bytes" where
  "secretKey L S =
     (if length (randomString S) < 64 then sha256_Sum L (randomString S) else randomString S)"

definition padded :: "bytes \<Rightarrow> bytes" where
  "padded x = x @ replicate (16 - length x mod 16) 0x20"

section \<open>A small library for running the code\<close>

text \<open>
  A library with the interface above, small enough to run inside the logic. Its hasher
  never fails and gives 32 bytes; its cipher accepts keys of 16, 24 and 32 bytes, seals
  with a key stream and a 16-byte tag over key, nonce and ciphertext, and opens only
  what carries the right tag; its zlib writes and reads one stored block between the
  two header bytes \<open>78 9C\<close> and the Adler-32 checksum, a valid zlib stream. The digest
  is not SHA-256 and the cipher is not AES-GCM: the runs below show which way the
  code of crypto.go goes, not what the real ciphertext is.
\<close>

definition toy_lanes :: bytes where
  "toy_lanes =
     [1, 3, 5, 7, 9, 11, 13, 15, 17, 19, 21, 23, 25, 27, 29, 31,
      33, 35, 37, 39, 41, 43, 45, 47, 49, 51, 53, 55, 57, 59, 61, 63]"

definition toy_Sum :: "bytes \<Rightarrow> bytes" where
  "toy_Sum data =
     (let h = fold (\<lambda>b h. ((h XOR b) * 37 + 1) AND 0xFF) data (0x5A :: byte)
      in map (\<lambda>c. (h * c + c) AND 0xFF) toy_lanes)"

text \<open>One step of the digest, as \<open>toy_Sum\<close> folds it over the data.\<close>

definition toy_step :: "byte \<Rightarrow> byte \<Rightarrow> byte" where
  "toy_step b h = ((h XOR b) * 37 + 1) AND 0xFF"

definition toy_tag :: "bytes \<Rightarrow> bytes \<Rightarrow> bytes \<Rightarrow> bytes" where
  "toy_tag key nonce c = take 16 (toy_Sum (key @ nonce @ c))"

definition toy_Seal :: "bytes \<Rightarrow> bytes \<Rightarrow> bytes \<Rightarrow> bytes" where
  "toy_Seal key nonce p = (let c = xor_bytes (key @ nonce) p in c @ toy_tag key nonce c)"

definition toy_Open :: "bytes \<Rightarrow> bytes \<Rightarrow> bytes \<Rightarrow> string + bytes" where
  "toy_Open key nonce s =
     (if length s < 16 then Inl ''cipher: message authentication failed''
      else
        (let c = take (length s - 16) s;
             t = drop (length s - 16) s
         in if t = toy_tag key nonce c then Inr (xor_bytes (key @ nonce) c)
            else Inl ''cipher: message authentication failed''))"

fun adler32 :: "bytes \<Rightarrow> nat \<Rightarrow> nat \<Rightarrow> nat \<times> nat" where
  "adler32 [] a b = (a, b)"
| "adler32 (x # xs) a b =
     adler32 xs ((a + unat x) mod 65521) ((b + (a + unat x) mod 65521) mod 65521)"

definition adler32_bytes :: "bytes \<Rightarrow> bytes" where
  "adler32_bytes data =
     (case adler32 data 1 0 of
        (a, b) \<Rightarrow> [of_nat (b div 256), of_nat (b mod 256), of_nat (a div 256), of_nat (a mod 256)])"

definition toy_zlib_Write :: "bytes \<Rightarrow> string + bytes" where
  "toy_zlib_Write p =
     (let n = (of_nat (length p) :: 16 word);
          lo = (ucast n :: byte);
          hi = (ucast (drop_bit 8 n) :: byte)
      in Inr ([0x78, 0x9C, 0x01, lo, hi, lo XOR 0xFF, hi XOR 0xFF] @ p @ adler32_bytes p))"

definition toy_zlib_NewReader :: "bytes \<Rightarrow> gerror" where
  "toy_zlib_NewReader z =
     (case z of
        c # f # _ \<Rightarrow>
          if c AND 0x0F \<noteq> 8 \<or> 7 < drop_bit 4 c \<or> (unat c * 256 + unat f) mod 31 \<noteq> 0
          then Some ''zlib: invalid header''
          else if f AND 0x20 \<noteq> 0 then Some ''zlib: invalid dictionary''
          else None
      | _ \<Rightarrow> Some ''unexpected EOF'')"

definition toy_zlib_Copy :: "bytes \<Rightarrow> bytes \<times> gerror" where
  "toy_zlib_Copy z =
     (case drop 2 z of
        h # lo # hi # nlo # nhi # r \<Rightarrow>
          if h \<noteq> 0x01 then ([], Some ''flate: corrupt input before offset 1'')
          else if nlo \<noteq> lo XOR 0xFF \<or> nhi \<noteq> hi XOR 0xFF
          then ([], Some ''flate: corrupt input before offset 5'')
          else
            (let n = unat lo + 256 * unat hi;
                 data = take n r;
                 sum = drop n r
             in if length data < n \<or> length sum < 4 then (data, Some ''unexpected EOF'')
                else if take 4 sum = adler32_bytes data then (data, None)
                else (data, Some ''zlib: invalid checksum''))
      | h # r \<Rightarrow>
          if h \<noteq> 0x01 then ([], Some ''flate: corrupt input before offset 1'')
          else ([], Some ''unexpected EOF'')
      | [] \<Rightarrow> ([], Some ''unexpected EOF''))"

definition toy_NewCipher :: "bytes \<Rightarrow> gerror" where
  "toy_NewCipher key =
     (if length key = 16 \<or> length key = 24 \<or> length key = 32 then None
      else Some ''crypto/aes: invalid key size'')"

definition toy_random :: bytes where
  "toy_random = [0xA1, 0x5B, 0x0E, 0xF2, 0x47, 0x9C, 0x33, 0xD8, 0x60, 0x15, 0xBE, 0x7A]"

definition toy_lib :: go_lib where
  "toy_lib =
     \<lparr>sha256_Write = (\<lambda>p. (p, None)),
      sha256_Sum = toy_Sum,
      zlib_Write = toy_zlib_Write,
      zlib_NewReader = toy_zlib_NewReader,
      zlib_Copy = toy_zlib_Copy,
      aes_NewCipher = toy_NewCipher,
      cipher_NewGCM = (\<lambda>key. None),
      rand_ReadFull = (\<lambda>n. if n \<le> length toy_random then Inr (take n toy_random)
                            else Inl ''unexpected EOF''),
      gcm_Seal = toy_Seal,
      gcm_Open = toy_Open\<rparr>"

definition space_secrets :: secrets where
  "space_secrets =
     \<lparr>randomString = str ''Xaaaaaaaaaaaaaaaaaaaaaaaaaaaaaaaaaaaaaaaaaaaaaaaaaaaaaaaaaaaaaaa'',
      byteKey = [0x01], randomBytes = [1]\<rparr>"

definition trim_secrets :: secrets where
  "trim_secrets =
     \<lparr>randomString = str ''BBBBBBBBBBBBBBBBBBBBBBBBBBBBBBBBBBBBBBBBBBBBBBBBBBBBBBBBBBBBBBBB'',
      byteKey = [0x01], randomBytes = [1]\<rparr>"

text \<open>
  Concrete inputs for the runs below. \<open>artifact_a\<close> is what \<open>obfuscateData\<close> makes of
  the string \<^verbatim>\<open>a\<close> with the small library and the secrets of the source file;
  \<open>artifact_other_case\<close>, \<open>artifact_bad_digit\<close> and \<open>artifact_bad_tag\<close> are that text
  with one byte changed: the first to the other letter case, the first to \<^verbatim>\<open>g\<close>, the
  last to another digit. \<open>artifact_short\<close> is its first 22 characters. \<open>artifact_space\<close> and
  \<open>artifact_trim\<close> are \<^verbatim>\<open>a\<close> obfuscated under \<open>space_secrets\<close> and \<open>trim_secrets\<close>.
  \<open>artifact_empty\<close> and \<open>artifact_bad_sum\<close> are made with the same keys around a
  compressed empty string and around a stream with a wrong checksum. The envelopes are
  the bytes that reach \<^verbatim>\<open>decryptString\<close>.
\<close>

definition artifact_a :: bytes where
  "artifact_a =
     str ''a05a0ff3469d32d96114bf7b193da0e0e11f5e406103a143207284d65703af5b07b35f0bb7630fbb6713bf6b''"

definition artifact_other_case :: bytes where
  "artifact_other_case =
     str ''A05a0ff3469d32d96114bf7b193da0e0e11f5e406103a143207284d65703af5b07b35f0bb7630fbb6713bf6b''"

definition artifact_bad_digit :: bytes where
  "artifact_bad_digit =
     str ''g05a0ff3469d32d96114bf7b193da0e0e11f5e406103a143207284d65703af5b07b35f0bb7630fbb6713bf6b''"

definition artifact_bad_tag :: bytes where
  "artifact_bad_tag =
     str ''a05a0ff3469d32d96114bf7b193da0e0e11f5e406103a143207284d65703af5b07b35f0bb7630fbb6713bf6a''"

definition artifact_short :: bytes where
  "artifact_short =
     str ''a05a0ff3469d32d96114bf''"

definition artifact_space :: bytes where
  "artifact_space =
     str ''a05a0ff3469d32d96114bf7b0887ac7e115d8a66d9093dad207284d6b41e88f25cc6309a046ed842ac1680ea''"

definition artifact_trim :: bytes where
  "artifact_trim =
     str ''a05a0ff3469d32d96114bf7b12a48f5d327ea945fa2a1e8e207284d6af0b67c31f7bd7338feb47a3ff5bb713''"

definition artifact_empty :: bytes where
  "artifact_empty =
     str ''a05a0ff3469d32d96114bf7b193da0e1e11e5e216161a08e207284d6ce6c0aa846e48220be5cfa9836d47210''"

definition artifact_bad_sum :: bytes where
  "artifact_bad_sum =
     str ''a05a0ff3469d32d96114bf7b193da0e0e11f5e406103a1bc207284d63092f456b81a7cde40a20466c82a8cee''"

definition envelope_bad_tag :: bytes where
  "envelope_bad_tag =
     [0xA1, 0x5B, 0x0E, 0xF2, 0x47, 0x9C, 0x33, 0xD8, 0x60, 0x15, 0xBE, 0x7A,
      0x18, 0x3C, 0xA1, 0xE1, 0xE0, 0x1E, 0x5F, 0x41, 0x60, 0x02, 0xA0, 0x42,
      0x21, 0x73, 0x85, 0xD7, 0x56, 0x02, 0xAE, 0x5A, 0x06, 0xB2, 0x5E, 0x0A,
      0xB6, 0x62, 0x0E, 0xBA, 0x66, 0x12, 0xBE, 0x6B]"

definition envelope_space_a :: bytes where
  "envelope_space_a =
     [0xA1, 0x5B, 0x0E, 0xF2, 0x47, 0x9C, 0x33, 0xD8, 0x60, 0x15, 0xBE, 0x7A,
      0x09, 0x1A, 0xED, 0x3F, 0x51, 0xE3, 0x35, 0x47, 0x99, 0x2B, 0x7D, 0x8F,
      0x21, 0x73, 0x85, 0xD7, 0x97, 0xC5, 0xF3, 0x21, 0x4F, 0x7D, 0xAB, 0xD9,
      0x07, 0x35, 0x63, 0x91, 0xBF, 0xED, 0x1B, 0x49]"

definition envelope_trim :: bytes where
  "envelope_trim =
     [0xA1, 0x5B, 0x0E, 0xF2, 0x47, 0x9C, 0x33, 0xD8, 0x60, 0x15, 0xBE, 0x7A,
      0x13, 0xA5, 0x8E, 0x5C, 0x33, 0x7F, 0xA8, 0x44, 0xFB, 0x2B, 0x1F, 0x8F,
      0x21, 0x73, 0x85, 0xD7, 0xAE, 0x0A, 0x66, 0xC2, 0x1E, 0x7A, 0xD6, 0x32,
      0x8E, 0xEA, 0x46, 0xA2, 0xFE, 0x5A, 0xB6, 0x12]"

definition envelope_empty :: bytes where
  "envelope_empty =
     [0xA1, 0x5B, 0x0E, 0xF2, 0x47, 0x9C, 0x33, 0xD8, 0x60, 0x15, 0xBE, 0x7A,
      0x18, 0x3C, 0xA1, 0xE0, 0xE0, 0x1F, 0x5F, 0x20, 0x60, 0x60, 0xA1, 0x8F,
      0x21, 0x73, 0x85, 0xD7, 0xCF, 0x6D, 0x0B, 0xA9, 0x47, 0xE5, 0x83, 0x21,
      0xBF, 0x5D, 0xFB, 0x99, 0x37, 0xD5, 0x73, 0x11]"

definition envelope_bad_sum :: bytes where
  "envelope_bad_sum =
     [0xA1, 0x5B, 0x0E, 0xF2, 0x47, 0x9C, 0x33, 0xD8, 0x60, 0x15, 0xBE, 0x7A,
      0x18, 0x3C, 0xA1, 0xE1, 0xE0, 0x1E, 0x5F, 0x41, 0x60, 0x02, 0xA0, 0xBD,
      0x21, 0x73, 0x85, 0xD7, 0x31, 0x93, 0xF5, 0x57, 0xB9, 0x1B, 0x7D, 0xDF,
      0x41, 0xA3, 0x05, 0x67, 0xC9, 0x2B, 0x8D, 0xEF]"

definition broken_writer :: go_lib where
  "broken_writer =
     toy_lib\<lparr>zlib_Write := (\<lambda>p. Inl ''short write'')\<rparr>"

section \<open>Outcomes and the stages, one at a time\<close>

lemma returned_emit [simp]: "returned (emit t m) = returned m"
  by (cases m) simp_all

lemma returned_andThen:
  "returned (andThen m f) = (case returned m of None \<Rightarrow> None | Some a \<Rightarrow> returned (f a))"
  by (cases m) simp_all

lemma returned_ret [simp]: "returned (ret a) = Some a"
  by (simp add: ret_def)

lemma returned_call [simp]: "returned (call e a) = Some a"
  by (simp add: call_def)

lemma returned_fail [simp]: "returned fail = Some ()"
  by (simp add: fail_def)

lemma returned_debug [simp]: "returned debug = Some ()"
  by (simp add: debug_def)

lemma hexDecode_bytes_nonempty:
  "hexDecode_bytes s = Some e \<Longrightarrow> s \<noteq> [] \<Longrightarrow> e \<noteq> []"
  by (induction s rule: hexDecode_bytes.induct) (auto split: option.splits)

lemma returned_deriveKey:
  "hasher_total L \<Longrightarrow>
   returned (deriveKey L S) =
     Some (if length (randomString S) < 64 then sha256_Sum L (randomString S) else randomString S, None)"
  by (simp add: deriveKey_def hasher_total_def returned_andThen)

lemma returned_cipherKey:
  "hasher_total L \<Longrightarrow> returned (cipherKey L p) = Some (sha256_Sum L p, None)"
  by (simp add: cipherKey_def hasher_total_def returned_andThen)

lemma decryptString_short:
  "hasher_total L \<Longrightarrow> length ct < 12 \<Longrightarrow> decryptString L pw ct = Panic"
  by (simp add: decryptString_def cipherKey_def hasher_total_def call_def ret_def)

subsection \<open>The XOR mask\<close>

text \<open>
  The same bytes by recursion over the data, with the rest of the key as a second
  argument: the form in which a mask over concrete bytes is computed.
\<close>

fun xor_cycle :: "bytes \<Rightarrow> bytes \<Rightarrow> bytes \<Rightarrow> bytes" where
  "xor_cycle key ks [] = []"
| "xor_cycle key (k # ks) (d # ds) = (d XOR k) # xor_cycle key ks ds"
| "xor_cycle key [] (d # ds) =
     (case key of [] \<Rightarrow> [] | k # ks \<Rightarrow> (d XOR k) # xor_cycle key ks ds)"

lemma xor_bytes_Nil [simp]: "xor_bytes key [] = []"
  by (simp add: xor_bytes_def)

lemma length_xor_bytes [simp]: "length (xor_bytes key data) = length data"
  by (simp add: xor_bytes_def)

lemma xor_cycle_drop:
  "j < length key \<Longrightarrow>
   xor_cycle key (drop j key) data =
     map (\<lambda>i. (data ! i) XOR (key ! ((j + i) mod length key))) [0..<length data]"
proof (induction data arbitrary: j)
  case Nil
  then show ?case by simp
next
  case (Cons d ds)
  have split: "drop j key = key ! j # drop (Suc j) key"
    using Cons.prems by (simp add: Cons_nth_drop_Suc)
  have shift: "[0..<Suc (length ds)] = 0 # map Suc [0..<length ds]"
    by (simp add: upt_conv_Cons map_Suc_upt del: upt_Suc)
  show ?case
  proof (cases "Suc j < length key")
    case True
    from Cons.IH[OF True] show ?thesis
      using Cons.prems by (simp add: split shift o_def del: upt_Suc)
  next
    case False
    with Cons.prems have last: "Suc j = length key" by simp
    then have key: "key \<noteq> []" by auto
    then obtain k ks where kk: "key = k # ks" by (cases key) auto
    have wrap: "\<And>i. Suc (j + i) mod length key = i mod length key"
    proof -
      fix i
      have "Suc (j + i) = length key + i" using last by simp
      then have "Suc (j + i) mod length key = (length key + i) mod length key" by (simp only:)
      also have "\<dots> = i mod length key" by (rule mod_add_self1)
      finally show "Suc (j + i) mod length key = i mod length key" .
    qed
    show ?thesis
    proof (cases ds)
      case Nil
      then show ?thesis using Cons.prems by (simp add: split)
    next
      case (Cons d' ds')
      have "0 < length key" using key by simp
      from Cons.IH[OF this] have IH0:
        "xor_cycle key key ds = map (\<lambda>i. (ds ! i) XOR (key ! (i mod length key))) [0..<length ds]"
        by simp
      have "xor_cycle key [] ds = xor_cycle key key ds"
        using Cons kk by simp
      then show ?thesis
        using Cons.prems last IH0
        by (simp add: split shift o_def wrap del: upt_Suc)
    qed
  qed
qed

lemma xor_bytes_cycle: "key \<noteq> [] \<Longrightarrow> xor_bytes key data = xor_cycle key key data"
  using xor_cycle_drop[of 0 key data] by (simp add: xor_bytes_def)

subsection \<open>Hexadecimal text\<close>

lemma drop_bit_4_less: "drop_bit 4 (b::byte) < 16"
proof -
  have "unat b < 2 ^ 8" using unsigned_less[of b, where 'a=nat] by simp
  then have "unat b div 16 < 16" by simp
  then show ?thesis by (simp add: word_less_nat_alt unat_drop_bit_eq drop_bit_eq_div unat_div)
qed

lemma low_nibble_mask: "(0x0F::byte) = mask 4"
  by (simp add: mask_eq_exp_minus_1)

lemma low_nibble_less: "(b::byte) AND 0x0F < 16"
  using and_mask_less_size[of 4 b] by (simp add: low_nibble_mask word_size)

lemma nibbles_join: "push_bit 4 (drop_bit 4 b) OR (b AND 0x0F) = (b::byte)"
  unfolding low_nibble_mask by (rule bit_word_eqI) (auto simp: bit_simps)

lemma nibble_cases: "(n::byte) < 16 \<Longrightarrow> n \<in> {0,1,2,3,4,5,6,7,8,9,10,11,12,13,14,15}"
proof -
  assume "n < 16"
  then have "unat n < 16" by (simp add: word_less_nat_alt)
  then have "unat n \<in> {0,1,2,3,4,5,6,7,8,9,10,11,12,13,14,15}" by simp arith
  then have "of_nat (unat n) \<in> ((of_nat ` {0,1,2,3,4,5,6,7,8,9,10,11,12,13,14,15}) :: byte set)"
    by (rule imageI)
  then show ?thesis by simp
qed

lemma fromHexChar_hexDigit: "(n::byte) < 16 \<Longrightarrow> fromHexChar (hexDigit n) = Some n"
  by (drule nibble_cases, elim insertE emptyE) (simp_all add: fromHexChar_def hexDigit_def)

lemma hexDecode_hexEncode: "hexDecode_bytes (hexEncode_bytes bs) = Some bs"
  by (induction bs)
     (simp_all add: hexEncode_bytes_def fromHexChar_hexDigit drop_bit_4_less low_nibble_less
        nibbles_join)

lemma hexEncode_bytes_Nil_iff: "hexEncode_bytes bs = [] \<longleftrightarrow> bs = []"
  by (cases bs) (simp_all add: hexEncode_bytes_def)

subsection \<open>White space at the ends\<close>

lemma leadingSpace_space: "leadingSpace (0x20 # s) = Some [0x20]"
  by (simp add: leadingSpace_def spaceRunes_def startsWith_def)

lemma leadingSpace_FD: "leadingSpace (0xFD # s) = None"
  by (simp add: leadingSpace_def spaceRunes_def startsWith_def)

lemma TrimLeft_space_FD: "TrimLeft (0x20 # 0xFD # w) = 0xFD # w"
  by (simp add: TrimLeft.simps[of "0x20 # 0xFD # w"] TrimLeft.simps[of "0xFD # w"]
      leadingSpace_space leadingSpace_FD)

lemma FD_in_no_space: "p \<in> set spaceRunes \<Longrightarrow> 0xFD \<notin> set p"
  by (auto simp: spaceRunes_def)

lemma trailingSpace_keeps_FD:
  assumes "trailingSpace (0xFD # w) = Some p"
  shows "take (length (0xFD # w) - length p) (0xFD # w) = 0xFD # take (length w - length p) w"
    and "length p \<le> length w"
proof -
  from assms have p: "p \<in> set spaceRunes" and e: "endsWith (0xFD # w) p"
    by (auto simp: trailingSpace_def find_Some_iff)
  from e have le: "length p \<le> Suc (length w)"
    and d: "drop (Suc (length w) - length p) (0xFD # w) = p"
    by (auto simp: endsWith_def)
  show "length p \<le> length w"
  proof (rule ccontr)
    assume "\<not> length p \<le> length w"
    with le have "length p = Suc (length w)" by simp
    with d have "p = 0xFD # w" by simp
    with FD_in_no_space[OF p] show False by simp
  qed
  then show "take (length (0xFD # w) - length p) (0xFD # w) = 0xFD # take (length w - length p) w"
    by (simp add: Suc_diff_le)
qed

lemma TrimRight_keeps_FD: "\<exists>w'. TrimRight (0xFD # w) = 0xFD # w'"
proof (induction "length w" arbitrary: w rule: less_induct)
  case less
  show ?case
  proof (cases "trailingSpace (0xFD # w)")
    case None
    then show ?thesis by (simp add: TrimRight.simps[of "0xFD # w"])
  next
    case (Some p)
    from Some have "p \<in> set spaceRunes" by (auto simp: trailingSpace_def find_Some_iff)
    then have pos: "0 < length p" by (rule spaceRunes_nonempty)
    note keep = trailingSpace_keeps_FD[OF Some]
    have step: "TrimRight (0xFD # w) = TrimRight (0xFD # take (length w - length p) w)"
      using Some keep(1) by (simp add: TrimRight.simps[of "0xFD # w"])
    have "length w - length p < length w"
      using keep(2) pos by linarith
    then have shorter: "length (take (length w - length p) w) < length w"
      by simp
    from less[OF shorter] step show ?thesis by simp
  qed
qed

lemma TrimSpace_space_FD: "\<exists>w'. TrimSpace (0x20 # 0xFD # w) = 0xFD # w'"
  by (simp add: TrimSpace_def TrimLeft_space_FD TrimRight_keeps_FD)

subsection \<open>The pipeline, stage by stage\<close>

lemma returned_deriveKey':
  "hasher_total L \<Longrightarrow> returned (deriveKey L S) = Some (secretKey L S, None)"
  by (simp add: returned_deriveKey secretKey_def)

lemma length_padded: "length (padded x) mod 16 = 0"
proof -
  have "(n + (16 - n mod 16)) mod 16 = 0" for n :: nat
    by presburger
  then show ?thesis by (simp add: padded_def)
qed

lemma xor_bytes_involution: "xor_bytes key (xor_bytes key d) = d"
  by (rule nth_equalityI) (simp_all add: xor_bytes_def xor.assoc)

lemma returned_xor_str: "key \<noteq> [] \<or> d = [] \<Longrightarrow> returned (xor_str key d) = Some (xor_bytes key d)"
  by (auto simp: xor_str_def)

lemma returned_encryptString:
  assumes "hasher_total L" and "digest_32 L" and "cipher_ready L"
    and "rand_ReadFull L 12 = Inr nonce"
  shows "returned (encryptString L pw x) =
           Some (nonce @ gcm_Seal L (sha256_Sum L pw) nonce (padded x))"
proof -
  have k: "length (sha256_Sum L pw) = 32" using assms(2) by (simp add: digest_32_def)
  with assms(3) have c: "aes_NewCipher L (sha256_Sum L pw) = None"
    "cipher_NewGCM L (sha256_Sum L pw) = None"
    by (simp_all add: cipher_ready_def)
  have w: "sha256_Write L pw = (pw, None)" using assms(1) by (simp add: hasher_total_def)
  have p: "length (x @ replicate (16 - length x mod 16) (0x20::byte)) mod 16 = 0"
    using length_padded[of x] by (simp add: padded_def)
  show ?thesis
    using p by (simp add: encryptString_def cipherKey_def returned_andThen w c assms(4) Let_def padded_def)
qed

lemma returned_decryptString:
  assumes "hasher_total L" and "digest_32 L" and "cipher_ready L" and "12 \<le> length ct"
  shows "returned (decryptString L pw ct) =
           Some (case gcm_Open L (sha256_Sum L pw) (take 12 ct) (drop 12 ct) of
                   Inl e \<Rightarrow> [] | Inr p \<Rightarrow> TrimSpace p)"
proof -
  have k: "length (sha256_Sum L pw) = 32" using assms(2) by (simp add: digest_32_def)
  with assms(3) have c: "aes_NewCipher L (sha256_Sum L pw) = None"
    "cipher_NewGCM L (sha256_Sum L pw) = None"
    by (simp_all add: cipher_ready_def)
  have w: "sha256_Write L pw = (pw, None)" using assms(1) by (simp add: hasher_total_def)
  show ?thesis
    using assms(4)
    by (simp add: decryptString_def cipherKey_def returned_andThen w c Let_def split: sum.splits)
qed

lemma returned_encryptConfig:
  assumes "hasher_total L" and "digest_32 L" and "cipher_ready L"
    and "rand_ReadFull L 12 = Inr nonce" and "zlib_Write L v = Inr c" and "secretKey L S \<noteq> []"
  shows "returned (encryptConfig L S v) =
           Some (nonce @ gcm_Seal L (sha256_Sum L (byteKey S)) nonce
                           (padded (xor_bytes (secretKey L S) c)), None)"
  using assms(5,6)
  by (simp add: encryptConfig_def returned_andThen returned_deriveKey'[OF assms(1)]
      returned_xor_str returned_encryptString[OF assms(1-4)])

lemma returned_obfuscateData:
  assumes "hasher_total L" and "digest_32 L" and "cipher_ready L"
    and "rand_ReadFull L 12 = Inr nonce" and "zlib_Write L v = Inr c" and "secretKey L S \<noteq> []"
    and "tossKey S \<noteq> []" and "v \<noteq> []"
  shows "returned (obfuscateData L S v) =
           Some (hexEncode_bytes (xor_bytes (tossKey S)
                   (nonce @ gcm_Seal L (sha256_Sum L (byteKey S)) nonce
                              (padded (xor_bytes (secretKey L S) c)))), None)"
  using assms(7,8)
  by (simp add: obfuscateData_def returned_andThen returned_encryptConfig[OF assms(1-6)]
      returned_xor_str hexEncode_def)

lemma returned_deobfuscateData:
  assumes "datum \<noteq> []" and "hexDecode_bytes datum = Some e" and "tossKey S \<noteq> []"
  shows "returned (deobfuscateData L S datum) = returned (decryptConfig L S (xor_bytes (tossKey S) e))"
proof (cases "decryptConfig L S (xor_bytes (tossKey S) e)")
  case Panic
  then show ?thesis using assms
    by (simp add: deobfuscateData_def hexDecode_def returned_andThen returned_xor_str)
next
  case (Done r t)
  then show ?thesis using assms
    by (cases r) (simp add: deobfuscateData_def hexDecode_def returned_andThen returned_xor_str
        split: option.splits)
qed

lemma returned_decryptConfig:
  assumes "hasher_total L" and "digest_32 L" and "cipher_ready L" and "12 \<le> length ct"
    and "secretKey L S \<noteq> []"
  shows "returned (decryptConfig L S ct) =
           returned (inflateConfig L (xor_bytes (secretKey L S)
             (case gcm_Open L (sha256_Sum L (byteKey S)) (take 12 ct) (drop 12 ct) of
                Inl e \<Rightarrow> [] | Inr p \<Rightarrow> TrimSpace p)))"
  using assms(5)
  by (simp add: decryptConfig_def returned_andThen returned_deriveKey'[OF assms(1)]
      returned_decryptString[OF assms(1-4)] returned_xor_str)

lemma inflateConfig_bad_header:
  "zlib_NewReader L z \<noteq> None \<Longrightarrow>
   returned (inflateConfig L z) = Some ([], Some ''error creating zlib reader'')"
  by (auto simp: inflateConfig_def returned_andThen)

lemma xor_bytes_Cons2:
  "xor_bytes (k0 # k1 # ks) (d0 # d1 # ds) =
     (d0 XOR k0) # (d1 XOR k1) # xor_cycle (k0 # k1 # ks) ks ds"
  by (simp add: xor_bytes_cycle)

lemma xor_bytes_Cons1:
  "xor_bytes (k0 # ks) (d0 # ds) = (d0 XOR k0) # xor_cycle (k0 # ks) ks ds"
  by (simp add: xor_bytes_cycle)


lemma deobfuscateData_inflate:
  assumes "datum \<noteq> []" and "hexDecode_bytes datum = Some (xor_bytes (tossKey S) env)"
    and "tossKey S \<noteq> []" and "hasher_total L" and "secretKey L S \<noteq> []"
    and "returned (decryptString L (byteKey S) env) = Some opened"
  shows "returned (deobfuscateData L S datum) =
           returned (inflateConfig L (xor_bytes (secretKey L S) opened))"
proof -
  have "returned (deobfuscateData L S datum) = returned (decryptConfig L S env)"
    using returned_deobfuscateData[OF assms(1,2,3)] by (simp add: xor_bytes_involution)
  also have "\<dots> = returned (inflateConfig L (xor_bytes (secretKey L S) opened))"
    using assms(5,6)
    by (simp add: decryptConfig_def returned_andThen returned_deriveKey'[OF assms(4)]
        returned_xor_str)
  finally show ?thesis .
qed

lemma returned_sanityCheck:
  "returned (sanityCheck d) =
     Some (if d = [] then ([], Some ''decrypted config is empty'') else (d, None))"
  by (simp add: sanityCheck_def)

lemma returned_inflateConfig:
  assumes "zlib_NewReader L z = None" and "zlib_Copy L z = (d, cerr)"
  shows "returned (inflateConfig L z) =
           (if cerr = None \<or> cerr = Some ''unexpected EOF''
            then Some (if d = [] then ([], Some ''decrypted config is empty'') else (d, None))
            else Some ([], Some (''error decrypting or decompressing zlib data: '' @ the cerr)))"
  using assms
  by (cases cerr) (simp_all add: inflateConfig_def returned_andThen returned_sanityCheck)

lemma inflateConfig_error_empty:
  "returned (inflateConfig L z) = Some (d, Some err) \<Longrightarrow> d = []"
  by (auto simp: inflateConfig_def returned_andThen returned_sanityCheck
      split: option.splits prod.splits if_splits)

lemma inflateConfig_success_nonempty:
  "returned (inflateConfig L z) = Some (d, None) \<Longrightarrow> d \<noteq> []"
  by (auto simp: inflateConfig_def returned_andThen returned_sanityCheck
      split: option.splits prod.splits if_splits)

lemma inflateConfig_empty_copy:
  "fst (zlib_Copy L z) = [] \<Longrightarrow> \<exists>err. returned (inflateConfig L z) = Some ([], Some err)"
  by (auto simp: inflateConfig_def returned_andThen returned_sanityCheck
      split: option.splits prod.splits if_splits)

lemma decryptConfig_error_empty:
  "returned (decryptConfig L S ct) = Some (d, Some err) \<Longrightarrow> d = []"
  by (auto simp: decryptConfig_def returned_andThen
      split: option.splits prod.splits dest: inflateConfig_error_empty)

lemma decryptConfig_success_nonempty:
  "returned (decryptConfig L S ct) = Some (d, None) \<Longrightarrow> d \<noteq> []"
  by (auto simp: decryptConfig_def returned_andThen
      split: option.splits prod.splits dest: inflateConfig_success_nonempty)

lemma encryptConfig_error_empty:
  "returned (encryptConfig L S p) = Some (d, Some err) \<Longrightarrow> d = []"
  by (auto simp: encryptConfig_def returned_andThen
      split: option.splits prod.splits sum.splits)

lemma deobfuscateData_no_empty_success:
  "datum \<noteq> [] \<Longrightarrow> returned (deobfuscateData L S datum) \<noteq> Some ([], None)"
  by (auto simp: deobfuscateData_def hexDecode_def returned_andThen
      split: option.splits prod.splits if_splits
      dest: decryptConfig_success_nonempty)

lemma decryptString_auth_failure:
  assumes "hasher_total L" and "digest_32 L" and "cipher_ready L" and "12 \<le> length ct"
    and "gcm_Open L (sha256_Sum L pw) (take 12 ct) (drop 12 ct) = Inl m"
  shows "decryptString L pw ct = Done [] [HashStage, CipherInit, CipherInit, OpenStage, LogCall]"
proof -
  have k: "length (sha256_Sum L pw) = 32" using assms(2) by (simp add: digest_32_def)
  with assms(3) have c: "aes_NewCipher L (sha256_Sum L pw) = None"
    "cipher_NewGCM L (sha256_Sum L pw) = None"
    by (simp_all add: cipher_ready_def)
  have w: "sha256_Write L pw = (pw, None)" using assms(1) by (simp add: hasher_total_def)
  show ?thesis
    using assms(4,5)
    by (simp add: decryptString_def cipherKey_def w c Let_def call_def ret_def fail_def)
qed

lemma decryptConfig_auth_failure:
  assumes "hasher_total L" and "digest_32 L" and "cipher_ready L" and "zlib_needs_header L"
    and "12 \<le> length ct"
    and "gcm_Open L (sha256_Sum L (byteKey S)) (take 12 ct) (drop 12 ct) = Inl m"
  shows "returned (decryptConfig L S ct) = Some ([], Some ''error creating zlib reader'')"
proof -
  have "returned (decryptString L (byteKey S) ct) = Some []"
    using decryptString_auth_failure[OF assms(1,2,3,5,6)] by simp
  moreover have "zlib_NewReader L [] \<noteq> None"
    using assms(4) by (simp add: zlib_needs_header_def)
  ultimately show ?thesis
    by (simp add: decryptConfig_def returned_andThen returned_deriveKey'[OF assms(1)]
        returned_xor_str inflateConfig_bad_header)
qed

lemma deobfuscateData_bad_hex:
  assumes "datum \<noteq> []" and "hexDecode_bytes datum = None"
  shows "deobfuscateData L S datum =
           Done ([], Some ''hex: odd length or invalid digit'') [HexDecodeStage, LogCall]"
  using assms by (simp add: deobfuscateData_def hexDecode_def call_def fail_def ret_def)

subsection \<open>The small library keeps the contracts, and runs\<close>

lemma replicate_numeral: "replicate (numeral k) x = x # replicate (pred_numeral k) x"
  by (simp add: numeral_eq_Suc)

lemma toy_hasher_total: "hasher_total toy_lib"
  by (simp add: hasher_total_def toy_lib_def)

lemma toy_digest_32: "digest_32 toy_lib"
  by (simp add: digest_32_def toy_lib_def toy_Sum_def toy_lanes_def Let_def)

lemma toy_cipher_ready: "cipher_ready toy_lib"
  by (simp add: cipher_ready_def toy_lib_def toy_NewCipher_def)

lemma toy_aead_correct: "aead_correct toy_lib"
  by (simp add: aead_correct_def toy_lib_def toy_Open_def toy_Seal_def toy_tag_def
      toy_Sum_def toy_lanes_def Let_def xor_bytes_involution)

lemma toy_nonce_12: "nonce_12 toy_lib"
  by (simp add: nonce_12_def toy_lib_def toy_random_def)

lemma toy_zlib_needs_header: "zlib_needs_header toy_lib"
  by (auto simp: zlib_needs_header_def toy_lib_def toy_zlib_NewReader_def split: list.splits)

lemma toy_zlib_needs_deflate: "zlib_needs_deflate toy_lib"
  by (auto simp: zlib_needs_deflate_def toy_lib_def toy_zlib_NewReader_def split: list.splits)

lemma TrimLeft_Nil: "TrimLeft [] = []"
  by (simp add: TrimLeft.simps leadingSpace_def spaceRunes_def startsWith_def)

lemma TrimLeft_Cons:
  "TrimLeft (c # s) =
     (case leadingSpace (c # s) of
        None \<Rightarrow> c # s
      | Some p \<Rightarrow> TrimLeft (drop (length p) (c # s)))"
  by (rule TrimLeft.simps)

lemma TrimRight_Nil: "TrimRight [] = []"
  by (simp add: TrimRight.simps trailingSpace_def spaceRunes_def endsWith_def)

lemma TrimRight_Cons:
  "TrimRight (c # s) =
     (case trailingSpace (c # s) of
        None \<Rightarrow> c # s
      | Some p \<Rightarrow> TrimRight (take (length (c # s) - length p) (c # s)))"
  by (rule TrimRight.simps)

lemmas run =
  obfuscateData_def deobfuscateData_def encryptConfig_def decryptConfig_def
  encryptString_def decryptString_def deriveKey_def cipherKey_def inflateConfig_def
  sanityCheck_def tossKey_def source_secrets_def space_secrets_def trim_secrets_def str_def
  xor_str_def hexEncode_def hexDecode_def hexEncode_bytes_def hexDigit_def fromHexChar_def
  fail_def debug_def ret_def call_def
  toy_lib_def toy_Sum_def toy_lanes_def toy_tag_def toy_Seal_def toy_Open_def
  adler32_bytes_def toy_zlib_Write_def toy_zlib_NewReader_def toy_zlib_Copy_def
  toy_NewCipher_def toy_random_def xor_bytes_cycle replicate_numeral
  TrimSpace_def TrimLeft_Nil TrimLeft_Cons TrimRight_Nil TrimRight_Cons leadingSpace_def trailingSpace_def
  spaceRunes_def startsWith_def endsWith_def

lemmas data =
  artifact_a_def artifact_bad_digit_def artifact_bad_tag_def artifact_short_def
  artifact_space_def artifact_trim_def artifact_empty_def artifact_bad_sum_def
  envelope_bad_tag_def envelope_space_a_def envelope_trim_def envelope_empty_def
  envelope_bad_sum_def broken_writer_def

lemma run_obfuscate_a:
  "obfuscateData toy_lib source_secrets (str ''a'') =
     Done (artifact_a, None)
       [HashStage, DeflateStage, XorStage, HashStage, CipherInit, RandomStage, CipherInit,
        SealStage, XorStage, HexEncodeStage]"
  by (simp add: run data)

lemma run_deobfuscate_a:
  "deobfuscateData toy_lib source_secrets artifact_a =
     Done (str ''a'', None)
       [HexDecodeStage, XorStage, HashStage, HashStage, CipherInit, CipherInit, OpenStage,
        XorStage, InflateStage]"
  by (simp add: run data)

lemma run_bad_digit:
  "deobfuscateData toy_lib source_secrets artifact_bad_digit =
     Done ([], Some ''hex: odd length or invalid digit'') [HexDecodeStage, LogCall]"
  by (simp add: run data)

lemma run_bad_tag:
  "deobfuscateData toy_lib source_secrets artifact_bad_tag =
     Done ([], Some ''error creating zlib reader'')
       [HexDecodeStage, XorStage, HashStage, HashStage, CipherInit, CipherInit, OpenStage,
        LogCall, XorStage, InflateStage, LogCall]"
  by (simp add: run data)

lemma decode_bad_tag: "hexDecode_bytes artifact_bad_tag = Some (xor_bytes [1] envelope_bad_tag)"
  by (simp add: data str_def fromHexChar_def xor_bytes_cycle)

lemma open_bad_tag:
  "gcm_Open toy_lib (sha256_Sum toy_lib [0x01]) (take 12 envelope_bad_tag)
     (drop 12 envelope_bad_tag) = Inl ''cipher: message authentication failed''"
  by (simp add: run data)

lemma run_decrypt_bad_tag:
  "decryptString toy_lib [0x01] envelope_bad_tag =
     Done [] [HashStage, CipherInit, CipherInit, OpenStage, LogCall]"
  by (simp add: run data)

lemma open_space_a:
  "gcm_Open toy_lib (sha256_Sum toy_lib [0x01]) (take 12 envelope_space_a)
     (drop 12 envelope_space_a) = Inr (0x20 # 0x61 # replicate 14 0x20)"
  by (simp add: run data)

lemma TrimSpace_space_a: "TrimSpace (0x20 # 0x61 # replicate 14 0x20) = [0x61]"
  by (simp add: run)

lemma run_obfuscate_space:
  "returned (obfuscateData toy_lib space_secrets (str ''a'')) = Some (artifact_space, None)"
  by (simp add: run data)

subsection \<open>One changed byte\<close>

text \<open>
  The hexadecimal digit at a position of the encoded text, and a byte with one of its
  two digits replaced: what the decoder reads when one character of the text changed.
\<close>

lemma fromHexChar_less: "fromHexChar c = Some d \<Longrightarrow> d < 16"
  by (auto simp: fromHexChar_def word_le_nat_alt word_less_nat_alt unat_sub split: if_splits)

lemma high_nibble_of_join:
  "(d::byte) < 16 \<Longrightarrow> lo < 16 \<Longrightarrow> drop_bit 4 (push_bit 4 d OR lo) = d"
  by (drule nibble_cases, drule nibble_cases, elim insertE emptyE) simp_all

lemma low_nibble_of_join:
  "(hi::byte) < 16 \<Longrightarrow> d < 16 \<Longrightarrow> (push_bit 4 hi OR d) AND 0x0F = d"
  by (drule nibble_cases, drule nibble_cases, elim insertE emptyE) simp_all

definition nibble_at :: "bytes \<Rightarrow> nat \<Rightarrow> byte" where
  "nibble_at m i =
     (if even i then drop_bit 4 (m ! (i div 2)) else (m ! (i div 2)) AND 0x0F)"

definition with_nibble :: "byte \<Rightarrow> nat \<Rightarrow> byte \<Rightarrow> byte" where
  "with_nibble x i d =
     (if even i then push_bit 4 d OR (x AND 0x0F) else push_bit 4 (drop_bit 4 x) OR d)"

lemma nibble_at_less: "nibble_at m i < 16"
  by (simp add: nibble_at_def drop_bit_4_less low_nibble_less)

lemma with_nibble_same: "with_nibble x i (nibble_at m i) = x" if "x = m ! (i div 2)"
  using that by (simp add: with_nibble_def nibble_at_def nibbles_join)

lemma with_nibble_other:
  assumes "d < 16" and "d \<noteq> nibble_at m i"
  shows "with_nibble (m ! (i div 2)) i d \<noteq> m ! (i div 2)"
proof
  assume e: "with_nibble (m ! (i div 2)) i d = m ! (i div 2)"
  show False
  proof (cases "even i")
    case True
    have w: "with_nibble (m ! (i div 2)) i d = push_bit 4 d OR (m ! (i div 2) AND 0x0F)"
      using True by (simp only: with_nibble_def if_True)
    have "drop_bit 4 (push_bit 4 d OR (m ! (i div 2) AND 0x0F)) = d"
      by (rule high_nibble_of_join[OF assms(1) low_nibble_less])
    then have "drop_bit 4 (m ! (i div 2)) = d" by (simp only: w[symmetric] e)
    with True assms(2) show False by (simp add: nibble_at_def)
  next
    case False
    have w: "with_nibble (m ! (i div 2)) i d = push_bit 4 (drop_bit 4 (m ! (i div 2))) OR d"
      using False by (simp only: with_nibble_def if_False)
    have "(push_bit 4 (drop_bit 4 (m ! (i div 2))) OR d) AND 0x0F = d"
      by (rule low_nibble_of_join[OF drop_bit_4_less assms(1)])
    then have "m ! (i div 2) AND 0x0F = d" by (simp only: w[symmetric] e)
    with False assms(2) show False by (simp add: nibble_at_def)
  qed
qed

lemma length_hexEncode_bytes: "length (hexEncode_bytes m) = 2 * length m"
  by (induction m) (simp_all add: hexEncode_bytes_def)

lemma hexEncode_bytes_Cons:
  "hexEncode_bytes (x # m) =
     hexDigit (drop_bit 4 x) # hexDigit (x AND 0x0F) # hexEncode_bytes m"
  by (simp add: hexEncode_bytes_def)

lemma nth_hexEncode_bytes:
  "i < 2 * length m \<Longrightarrow> hexEncode_bytes m ! i = hexDigit (nibble_at m i)"
proof (induction m arbitrary: i)
  case Nil
  then show ?case by simp
next
  case (Cons x m)
  show ?case
  proof (cases i)
    case 0
    then show ?thesis by (simp add: hexEncode_bytes_Cons nibble_at_def)
  next
    case (Suc j)
    show ?thesis
    proof (cases j)
      case 0
      with Suc show ?thesis by (simp add: hexEncode_bytes_Cons nibble_at_def)
    next
      case (Suc l)
      with \<open>i = Suc j\<close> Cons.prems have "l < 2 * length m" by simp
      from Cons.IH[OF this] Suc \<open>i = Suc j\<close> show ?thesis
        by (simp add: hexEncode_bytes_Cons nibble_at_def)
    qed
  qed
qed

lemma hexDecode_bytes_update:
  "i < 2 * length m \<Longrightarrow>
   hexDecode_bytes ((hexEncode_bytes m)[i := b]) =
     (case fromHexChar b of
        None \<Rightarrow> None
      | Some d \<Rightarrow> Some (m[i div 2 := with_nibble (m ! (i div 2)) i d]))"
proof (induction m arbitrary: i)
  case Nil
  then show ?case by simp
next
  case (Cons x m)
  show ?case
  proof (cases i)
    case 0
    then show ?thesis
      by (simp add: hexEncode_bytes_Cons with_nibble_def fromHexChar_hexDigit low_nibble_less
          hexDecode_hexEncode split: option.splits)
  next
    case (Suc j)
    show ?thesis
    proof (cases j)
      case 0
      with Suc show ?thesis
        by (simp add: hexEncode_bytes_Cons with_nibble_def fromHexChar_hexDigit drop_bit_4_less
            hexDecode_hexEncode split: option.splits)
    next
      case (Suc l)
      with \<open>i = Suc j\<close> Cons.prems have "l < 2 * length m" by simp
      from Cons.IH[OF this] Suc \<open>i = Suc j\<close> show ?thesis
        by (simp add: hexEncode_bytes_Cons with_nibble_def fromHexChar_hexDigit drop_bit_4_less
            low_nibble_less nibbles_join split: option.splits)
    qed
  qed
qed

lemma nth_xor_bytes:
  "j < length m \<Longrightarrow> xor_bytes key m ! j = (m ! j) XOR (key ! (j mod length key))"
  by (simp add: xor_bytes_def)

lemma xor_bytes_update:
  "j < length m \<Longrightarrow>
   xor_bytes key (m[j := y]) = (xor_bytes key m)[j := y XOR (key ! (j mod length key))]"
  by (rule nth_equalityI) (auto simp: xor_bytes_def nth_list_update)

lemma deobfuscateData_same_bytes:
  "a \<noteq> [] \<Longrightarrow> a' \<noteq> [] \<Longrightarrow> hexDecode_bytes a' = hexDecode_bytes a \<Longrightarrow>
   deobfuscateData L S a' = deobfuscateData L S a"
  by (simp add: deobfuscateData_def hexDecode_def)

lemma secretKey_nonempty: "digest_32 L \<Longrightarrow> secretKey L S \<noteq> []"
proof (cases "length (randomString S) < 64")
  case True
  assume "digest_32 L"
  then have "length (sha256_Sum L (randomString S)) = 32" by (simp add: digest_32_def)
  with True show ?thesis by (auto simp: secretKey_def)
next
  case False
  then show ?thesis by (auto simp: secretKey_def)
qed

lemma deriveKey_Done:
  "hasher_total L \<Longrightarrow> deriveKey L S = Done (secretKey L S, None) (events (deriveKey L S))"
  by (simp add: deriveKey_def secretKey_def hasher_total_def call_def ret_def)

lemma obfuscateData_success:
  assumes "hasher_total L" and "digest_32 L" and "cipher_ready L"
    and "rand_ReadFull L 12 = Inr nonce" and "length nonce = 12"
    and "v \<noteq> []" and "returned (obfuscateData L S v) = Some (a, None)"
  shows "tossKey S \<noteq> [] \<and>
         (\<exists>c. a = hexEncode_bytes (xor_bytes (tossKey S)
                 (nonce @ gcm_Seal L (sha256_Sum L (byteKey S)) nonce
                            (padded (xor_bytes (secretKey L S) c)))))"
proof (cases "zlib_Write L v")
  case (Inl e)
  then have "returned (obfuscateData L S v) = Some ([], Some e)"
    using assms(6)
    by (simp add: obfuscateData_def encryptConfig_def returned_andThen
        returned_deriveKey'[OF assms(1)])
  with assms(7) show ?thesis by simp
next
  case (Inr c)
  note sk = secretKey_nonempty[OF assms(2), of S]
  define env where
    "env = nonce @ gcm_Seal L (sha256_Sum L (byteKey S)) nonce
                     (padded (xor_bytes (secretKey L S) c))"
  have ec: "returned (encryptConfig L S v) = Some (env, None)"
    using returned_encryptConfig[OF assms(1-4) Inr sk] by (simp add: env_def)
  have ne: "env \<noteq> []" using assms(5) by (auto simp: env_def)
  have tk: "tossKey S \<noteq> []"
  proof
    assume "tossKey S = []"
    with ne have "returned (obfuscateData L S v) = None"
      using assms(6) ec by (simp add: obfuscateData_def returned_andThen xor_str_def)
    with assms(7) show False by simp
  qed
  from returned_obfuscateData[OF assms(1-4) Inr sk tk assms(6)] assms(7)
  have "a = hexEncode_bytes (xor_bytes (tossKey S) env)" by (simp add: env_def)
  with tk show ?thesis unfolding env_def by blast
qed

lemma deobfuscateData_auth_failure_run:
  assumes "hasher_total L" and "digest_32 L" and "cipher_ready L" and "zlib_needs_header L"
    and "a' \<noteq> []" and "hexDecode_bytes a' = Some m'" and "tossKey S \<noteq> []"
    and "12 \<le> length m'"
    and "gcm_Open L (sha256_Sum L (byteKey S)) (take 12 (xor_bytes (tossKey S) m'))
           (drop 12 (xor_bytes (tossKey S) m')) = Inl mm"
  shows "deobfuscateData L S a' =
           Done ([], Some ''error creating zlib reader'')
             ([HexDecodeStage, XorStage] @ events (deriveKey L S)
              @ [HashStage, CipherInit, CipherInit, OpenStage, LogCall, XorStage,
                 InflateStage, LogCall])"
proof -
  have len: "12 \<le> length (xor_bytes (tossKey S) m')" using assms(8) by simp
  note ds = decryptString_auth_failure[OF assms(1-3) len assms(9)]
  have nr: "zlib_NewReader L [] \<noteq> None"
    using assms(4) by (simp add: zlib_needs_header_def)
  then obtain e where e: "zlib_NewReader L [] = Some e" by auto
  have dc: "decryptConfig L S (xor_bytes (tossKey S) m') =
      Done ([], Some ''error creating zlib reader'')
        (events (deriveKey L S)
         @ [HashStage, CipherInit, CipherInit, OpenStage, LogCall, XorStage, InflateStage])"
    by (subst decryptConfig_def, subst deriveKey_Done[OF assms(1)])
       (simp add: ds xor_str_def inflateConfig_def e call_def ret_def)
  show ?thesis
    using assms(5,6,7)
    by (simp add: deobfuscateData_def hexDecode_def xor_str_def dc call_def ret_def fail_def)
qed

lemma and_FF: "(x::byte) AND 0xFF = x"
proof -
  have "(0xFF::byte) = - 1" by simp
  then show ?thesis by (simp only: and.right_neutral)
qed

lemma xor_cancel_right: "(h::byte) XOR b = h' XOR b \<Longrightarrow> h = h'"
proof -
  assume e: "h XOR b = h' XOR b"
  have "h = (h XOR b) XOR b" by (simp add: xor.assoc)
  also have "\<dots> = (h' XOR b) XOR b" by (simp only: e)
  also have "\<dots> = h'" by (simp add: xor.assoc)
  finally show ?thesis .
qed

lemma xor_cancel_left: "(h::byte) XOR b = h XOR b' \<Longrightarrow> b = b'"
  using xor_cancel_right[of b h b'] by (simp add: xor.commute)

lemma times_37_inj: "(x::byte) * 37 = y * 37 \<Longrightarrow> x = y"
proof -
  assume e: "x * 37 = y * 37"
  have u: "(37::byte) * 173 = 1" by simp
  have "x = x * (37 * 173)" by (simp only: u mult.right_neutral)
  also have "\<dots> = x * 37 * 173" by (simp only: mult.assoc)
  also have "\<dots> = y * 37 * 173" by (simp only: e)
  also have "\<dots> = y * (37 * 173)" by (simp only: mult.assoc)
  also have "\<dots> = y" by (simp only: u mult.right_neutral)
  finally show "x = y" .
qed

lemma toy_step_inj_state: "toy_step b h = toy_step b h' \<Longrightarrow> h = h'"
  by (auto simp: toy_step_def and_FF dest!: times_37_inj xor_cancel_right)

lemma toy_step_inj_byte: "toy_step b h = toy_step b' h \<Longrightarrow> b = b'"
  by (auto simp: toy_step_def and_FF dest!: times_37_inj xor_cancel_left)

lemma fold_toy_step_inj: "fold toy_step xs s = fold toy_step xs s' \<Longrightarrow> s = s'"
  by (induction xs arbitrary: s s') (auto dest: toy_step_inj_state)

lemma fold_toy_step_update:
  "i < length xs \<Longrightarrow> b \<noteq> xs ! i \<Longrightarrow> fold toy_step (xs[i := b]) s \<noteq> fold toy_step xs s"
proof (induction xs arbitrary: i s)
  case Nil
  then show ?case by simp
next
  case (Cons x xs)
  show ?case
  proof (cases i)
    case 0
    with Cons.prems have "b \<noteq> x" by simp
    then have "toy_step b s \<noteq> toy_step x s" by (auto dest: toy_step_inj_byte)
    then show ?thesis using 0 by (auto dest: fold_toy_step_inj)
  next
    case (Suc j)
    with Cons.prems Cons.IH[of j "toy_step x s"] show ?thesis by simp
  qed
qed

lemma toy_Sum_fold:
  "toy_Sum data = map (\<lambda>c. (fold toy_step data 0x5A * c + c) AND 0xFF) toy_lanes"
proof -
  have "(\<lambda>b h. ((h XOR b) * 37 + 1) AND 0xFF) = toy_step"
    by (intro ext) (simp add: toy_step_def)
  then show ?thesis by (simp add: toy_Sum_def Let_def)
qed

lemma toy_tag_inj:
  "toy_tag k n c = toy_tag k' n' c' \<Longrightarrow>
   fold toy_step (k @ n @ c) 0x5A = fold toy_step (k' @ n' @ c') 0x5A"
  by (simp add: toy_tag_def toy_Sum_fold toy_lanes_def and_FF del: fold_append)

lemma length_toy_tag: "length (toy_tag k n c) = 16"
  by (simp add: toy_tag_def toy_Sum_fold toy_lanes_def)

lemma toy_Open_rejects:
  assumes "length t' = 16" and "t' \<noteq> toy_tag k n' c'"
  shows "\<exists>m. toy_Open k n' (c' @ t') = Inl m"
  using assms by (simp add: toy_Open_def Let_def)

lemma toy_tamper_evident: "tamper_evident toy_lib k"
  unfolding tamper_evident_def
proof (intro allI impI)
  fix n p :: bytes and i :: nat and b :: byte
  define c where "c = xor_bytes (k @ n) p"
  define t where "t = toy_tag k n c"
  assume a: "length n = 12 \<and> i < length (n @ gcm_Seal toy_lib k n p)
      \<and> b \<noteq> (n @ gcm_Seal toy_lib k n p) ! i"
  have seal: "gcm_Seal toy_lib k n p = c @ t"
    by (simp add: toy_lib_def toy_Seal_def Let_def c_def t_def)
  have lt: "length t = 16" by (simp add: t_def length_toy_tag)
  from a have ln: "length n = 12" and i: "i < length ((n @ c) @ t)"
    and b: "b \<noteq> ((n @ c) @ t) ! i"
    by (simp_all add: seal)
  have "\<exists>m. toy_Open k (take 12 (((n @ c) @ t)[i := b])) (drop 12 (((n @ c) @ t)[i := b])) = Inl m"
  proof (cases "i < length (n @ c)")
    case True
    define nc where "nc = (n @ c)[i := b]"
    have lnc: "length nc = 12 + length c" by (simp add: nc_def ln)
    have upd: "(n @ c @ t)[i := b] = nc @ t"
      using True by (auto simp: nc_def list_update_append)
    have bi: "b \<noteq> (n @ c) ! i" using b True by (simp add: nth_append del: append_assoc)
    have "k @ take 12 nc @ drop 12 nc = (k @ n @ c)[length k + i := b]"
      by (simp add: nc_def list_update_append)
    moreover have "fold toy_step ((k @ n @ c)[length k + i := b]) 0x5A \<noteq>
        fold toy_step (k @ n @ c) 0x5A"
      using True bi by (intro fold_toy_step_update) (simp_all add: nth_append)
    ultimately have "toy_tag k (take 12 nc) (drop 12 nc) \<noteq> toy_tag k n c"
      using toy_tag_inj[of k "take 12 nc" "drop 12 nc" k n c] by auto
    then have "t \<noteq> toy_tag k (take 12 nc) (drop 12 nc)" by (auto simp: t_def)
    from toy_Open_rejects[OF lt this] show ?thesis
      by (simp add: upd lnc)
  next
    case False
    define t' where "t' = t[i - length (n @ c) := b]"
    have upd: "(n @ c @ t)[i := b] = n @ c @ t'"
      using False by (auto simp: t'_def list_update_append)
    have j: "i - length (n @ c) < length t" using i False by simp
    have "b \<noteq> t ! (i - length (n @ c))"
      using b False by (simp add: nth_append del: append_assoc)
    with j have "t' \<noteq> t" by (metis t'_def nth_list_update_eq)
    then have ne: "t' \<noteq> toy_tag k n c" by (simp add: t_def)
    have lt': "length t' = 16" by (simp add: t'_def lt)
    from toy_Open_rejects[OF lt' ne] show ?thesis
      by (simp add: upd ln)
  qed
  then show "\<exists>m. gcm_Open toy_lib k (take 12 ((n @ gcm_Seal toy_lib k n p)[i := b]))
      (drop 12 ((n @ gcm_Seal toy_lib k n p)[i := b])) = Inl m"
    by (simp add: toy_lib_def toy_Seal_def Let_def c_def t_def)
qed

lemma run_other_case:
  "deobfuscateData toy_lib source_secrets artifact_other_case =
     Done (str ''a'', None)
       [HexDecodeStage, XorStage, HashStage, HashStage, CipherInit, CipherInit, OpenStage,
        XorStage, InflateStage]"
proof -
  have "hexDecode_bytes artifact_other_case = hexDecode_bytes artifact_a"
    by (simp add: artifact_other_case_def data str_def fromHexChar_def)
  moreover have "artifact_a \<noteq> []" "artifact_other_case \<noteq> []"
    by (simp_all add: artifact_other_case_def data str_def)
  ultimately have "deobfuscateData toy_lib source_secrets artifact_other_case =
      deobfuscateData toy_lib source_secrets artifact_a"
    by (intro deobfuscateData_same_bytes)
  then show ?thesis by (simp only: run_deobfuscate_a)
qed

section \<open>Identity on the empty string\<close>

text \<open>
  C6. \<^verbatim>\<open>obfuscateData\<close> on the empty string leaves the empty string and returns no
  error, and so does \<^verbatim>\<open>deobfuscateData\<close>; in both runs the list of events is empty:
  no hash, compression, XOR, cipher, random or hex stage was called, and nothing was
  logged. This holds for every library and all secrets.
\<close>

theorem empty_is_identity_without_stages:
  "obfuscateData L S [] = Done ([], None) []
   \<and> deobfuscateData L S [] = Done ([], None) []"
  by (simp add: obfuscateData_def deobfuscateData_def ret_def)

section \<open>Key derivation\<close>

text \<open>
  C7. With a hasher that works as \<^verbatim>\<open>hash.Hash\<close> documents, the key of the XOR stage is
  the secret string itself when that has at least 64 bytes and its SHA-256 digest
  otherwise; the key of the cipher is the SHA-256 digest of the password whatever its
  length, and has the 32 bytes of a digest.
\<close>

theorem key_derivation:
  assumes "hasher_total L" and "digest_32 L"
  shows "returned (deriveKey L S) =
           Some (if 64 \<le> length (randomString S) then randomString S
                 else sha256_Sum L (randomString S), None)
         \<and> returned (cipherKey L p) = Some (sha256_Sum L p, None)
         \<and> length (sha256_Sum L p) = 32"
  using assms
  by (simp add: returned_deriveKey returned_cipherKey digest_32_def not_less)

theorem key_derivation_witness:
  "hasher_total toy_lib \<and> digest_32 toy_lib
   \<and> returned (deriveKey toy_lib source_secrets) = Some (toy_Sum (str ''HASH_HERE''), None)
   \<and> returned (deriveKey toy_lib trim_secrets) = Some (randomString trim_secrets, None)
   \<and> returned (cipherKey toy_lib [0x01]) = Some (toy_Sum [0x01], None)
   \<and> length (toy_Sum [0x01]) = 32"
  using key_derivation[OF toy_hasher_total toy_digest_32, of source_secrets "[0x01]"]
    key_derivation[OF toy_hasher_total toy_digest_32, of trim_secrets "[0x01]"]
    toy_hasher_total toy_digest_32
  by (simp add: source_secrets_def trim_secrets_def str_def toy_lib_def)

section \<open>An envelope shorter than the nonce\<close>

text \<open>
  C9. A non-empty text that is valid hexadecimal for fewer than 12 bytes makes
  \<^verbatim>\<open>deobfuscateData\<close> panic: \<^verbatim>\<open>decryptString\<close> slices the first 12 bytes of the
  envelope without a check of its length, so the run ends in the slice and not in an
  error result. (With an empty mask key the panic is already in the XOR before.)
\<close>

theorem short_envelope_panics:
  assumes "hasher_total L" and "datum \<noteq> []" and "hexDecode_bytes datum = Some e"
    and "length e < 12"
  shows "deobfuscateData L S datum = Panic"
proof -
  from assms have ne: "e \<noteq> []" by (auto dest: hexDecode_bytes_nonempty)
  have len: "length (xor_bytes (tossKey S) e) < 12"
    using assms(4) by simp
  have dc: "decryptConfig L S (xor_bytes (tossKey S) e) = Panic"
    using assms(1) decryptString_short[OF assms(1) len]
    by (simp add: decryptConfig_def deriveKey_def hasher_total_def call_def ret_def)
  show ?thesis
    using assms(2,3) ne dc
    by (simp add: deobfuscateData_def hexDecode_def xor_str_def call_def)
qed

theorem short_envelope_panics_witness:
  "artifact_short \<noteq> []
   \<and> map_option length (hexDecode_bytes artifact_short) = Some 11
   \<and> deobfuscateData toy_lib source_secrets artifact_short = Panic"
proof -
  obtain e where e: "hexDecode_bytes artifact_short = Some e" and l: "length e = 11"
    by (simp add: data str_def fromHexChar_def)
  have ne: "artifact_short \<noteq> []" by (simp add: data str_def)
  from l have "length e < 12" by simp
  from short_envelope_panics[OF toy_hasher_total ne e this] e l ne
  show ?thesis by simp
qed

section \<open>The value after an error\<close>

text \<open>
  C10. When \<^verbatim>\<open>obfuscateData\<close> returns an error, the string behind the pointer is the
  empty string that \<^verbatim>\<open>encryptConfig\<close> returned with the error. When \<^verbatim>\<open>deobfuscateData\<close>
  returns an error after the hexadecimal text was decoded, that is, from
  \<^verbatim>\<open>decryptConfig\<close>, the string is empty as well, not the text that was passed in.
\<close>

theorem errors_leave_the_value_empty:
  "(returned (obfuscateData L S datum) = Some (d, Some err) \<longrightarrow> d = [])
   \<and> (hexDecode_bytes datum = Some e
        \<and> returned (deobfuscateData L S datum) = Some (d', Some err') \<longrightarrow> d' = [])"
  by (auto simp: obfuscateData_def deobfuscateData_def hexDecode_def returned_andThen
      split: option.splits prod.splits if_splits
      dest: encryptConfig_error_empty decryptConfig_error_empty)

theorem errors_leave_the_value_empty_witness:
  "returned (obfuscateData broken_writer source_secrets (str ''a'')) =
     Some ([], Some ''short write'')
   \<and> hexDecode_bytes artifact_bad_tag = Some (xor_bytes [1] envelope_bad_tag)
   \<and> returned (deobfuscateData toy_lib source_secrets artifact_bad_tag) =
       Some ([], Some ''error creating zlib reader'')"
proof -
  have "map_option snd (returned (obfuscateData broken_writer source_secrets (str ''a''))) =
          Some (Some ''short write'')"
    by (simp add: run data returned_andThen)
  then obtain d where d:
    "returned (obfuscateData broken_writer source_secrets (str ''a'')) =
       Some (d, Some ''short write'')"
    by (cases "returned (obfuscateData broken_writer source_secrets (str ''a''))") auto
  have "map_option snd (returned (deobfuscateData toy_lib source_secrets artifact_bad_tag)) =
          Some (Some ''error creating zlib reader'')"
    by (simp add: run_bad_tag)
  then obtain d' where d':
    "returned (deobfuscateData toy_lib source_secrets artifact_bad_tag) =
       Some (d', Some ''error creating zlib reader'')"
    by (cases "returned (deobfuscateData toy_lib source_secrets artifact_bad_tag)") auto
  have "d = []"
    using errors_leave_the_value_empty[where L = broken_writer and S = source_secrets
        and datum = "str ''a''" and d = d and err = "''short write''"] d
    by simp
  moreover have "d' = []"
    using errors_leave_the_value_empty[where L = toy_lib and S = source_secrets
        and datum = artifact_bad_tag and e = "xor_bytes [1] envelope_bad_tag" and d' = d'
        and err' = "''error creating zlib reader''"] d' decode_bad_tag
    by simp
  ultimately have "d = []" and "d' = []" by simp_all
  with d d' decode_bad_tag show ?thesis by simp
qed

section \<open>The decompression stage\<close>

text \<open>
  The run of \<^verbatim>\<open>deobfuscateData\<close> up to the zlib reader: the text is valid hexadecimal
  for the masked envelope \<open>env\<close>, and \<^verbatim>\<open>decryptString\<close> returns \<open>opened\<close> for it. The
  reader then works on \<open>opened\<close> without the XOR mask of the secret key.
\<close>

definition reaches_inflate ::
  "go_lib \<Rightarrow> secrets \<Rightarrow> bytes \<Rightarrow> bytes \<Rightarrow> bytes \<Rightarrow> bool" where
  "reaches_inflate L S datum env opened \<longleftrightarrow>
     datum \<noteq> [] \<and> hexDecode_bytes datum = Some (xor_bytes (tossKey S) env)
     \<and> tossKey S \<noteq> [] \<and> secretKey L S \<noteq> []
     \<and> returned (decryptString L (byteKey S) env) = Some opened"

text \<open>
  C5. When the copy out of the zlib reader ends with the error whose text is
  \<^verbatim>\<open>unexpected EOF\<close>, \<^verbatim>\<open>deobfuscateData\<close> returns what it returns when the copy ends
  with no error: the bytes that were copied, with no error (and the error of C8 when
  no byte was copied). Every other error of the copy ends the run with an error that
  carries its text, and the caller gets that error.
\<close>

theorem unexpected_EOF_counts_as_completion:
  assumes "hasher_total L" and "reaches_inflate L S datum env opened"
    and "zlib_NewReader L (xor_bytes (secretKey L S) opened) = None"
    and "zlib_Copy L (xor_bytes (secretKey L S) opened) = (d, cerr)"
  shows "(cerr = None \<or> cerr = Some ''unexpected EOF'' \<longrightarrow>
            returned (deobfuscateData L S datum) =
              Some (if d = [] then ([], Some ''decrypted config is empty'') else (d, None)))
         \<and> (\<forall>m. cerr = Some m \<and> m \<noteq> ''unexpected EOF'' \<longrightarrow>
               returned (deobfuscateData L S datum) =
                 Some ([], Some (''error decrypting or decompressing zlib data: '' @ m)))"
proof -
  from assms(2) have p: "datum \<noteq> []"
    "hexDecode_bytes datum = Some (xor_bytes (tossKey S) env)" "tossKey S \<noteq> []"
    "secretKey L S \<noteq> []" "returned (decryptString L (byteKey S) env) = Some opened"
    by (simp_all add: reaches_inflate_def)
  have "returned (deobfuscateData L S datum) =
          returned (inflateConfig L (xor_bytes (secretKey L S) opened))"
    by (rule deobfuscateData_inflate[OF p(1,2,3) assms(1) p(4,5)])
  then show ?thesis
    by (auto simp: returned_inflateConfig[OF assms(3,4)])
qed

lemma reaches_inflate_trim:
  "reaches_inflate toy_lib trim_secrets artifact_trim envelope_trim
     [0x3A, 0xDE, 0x43, 0x43, 0x42, 0xBC, 0xBD, 0x23, 0x42, 0x20, 0x42]"
  unfolding reaches_inflate_def
  by (intro conjI) (simp_all add: run data secretKey_def)

lemma reaches_inflate_bad_sum:
  "reaches_inflate toy_lib source_secrets artifact_bad_sum envelope_bad_sum
     [0x31, 0x47, 0x6C, 0xFE, 0x91, 0xDD, 0x4A, 0x26, 0xD9, 0x09, 0xFD, 0x12]"
  unfolding reaches_inflate_def
  by (intro conjI) (simp_all add: run data secretKey_def)

lemma reaches_inflate_empty:
  "reaches_inflate toy_lib source_secrets artifact_empty envelope_empty
     [0x31, 0x47, 0x6C, 0xFF, 0x91, 0xDC, 0x4A, 0x47, 0xD9, 0x6B, 0xFC]"
  unfolding reaches_inflate_def
  by (intro conjI) (simp_all add: run data secretKey_def)

lemma unmasked_trim:
  "xor_bytes (secretKey toy_lib trim_secrets)
     [0x3A, 0xDE, 0x43, 0x43, 0x42, 0xBC, 0xBD, 0x23, 0x42, 0x20, 0x42] =
   [0x78, 0x9C, 0x01, 0x01, 0x00, 0xFE, 0xFF, 0x61, 0x00, 0x62, 0x00]"
  by (simp add: run secretKey_def)

lemma unmasked_bad_sum:
  "xor_bytes (secretKey toy_lib source_secrets)
     [0x31, 0x47, 0x6C, 0xFE, 0x91, 0xDD, 0x4A, 0x26, 0xD9, 0x09, 0xFD, 0x12] =
   [0x78, 0x9C, 0x01, 0x01, 0x00, 0xFE, 0xFF, 0x61, 0x00, 0x62, 0x00, 0x9D]"
  by (simp add: run secretKey_def)

lemma unmasked_empty:
  "xor_bytes (secretKey toy_lib source_secrets)
     [0x31, 0x47, 0x6C, 0xFF, 0x91, 0xDC, 0x4A, 0x47, 0xD9, 0x6B, 0xFC] =
   [0x78, 0x9C, 0x01, 0x00, 0x00, 0xFF, 0xFF, 0x00, 0x00, 0x00, 0x01]"
  by (simp add: run secretKey_def)

theorem unexpected_EOF_counts_as_completion_witness:
  "zlib_Copy toy_lib [0x78, 0x9C, 0x01, 0x01, 0x00, 0xFE, 0xFF, 0x61, 0x00, 0x62, 0x00] =
     ([0x61], Some ''unexpected EOF'')
   \<and> returned (deobfuscateData toy_lib trim_secrets artifact_trim) = Some (str ''a'', None)
   \<and> zlib_Copy toy_lib [0x78, 0x9C, 0x01, 0x01, 0x00, 0xFE, 0xFF, 0x61, 0x00, 0x62, 0x00, 0x9D] =
       ([0x61], Some ''zlib: invalid checksum'')
   \<and> returned (deobfuscateData toy_lib source_secrets artifact_bad_sum) =
       Some ([], Some ''error decrypting or decompressing zlib data: zlib: invalid checksum'')"
proof -
  have r1: "zlib_NewReader toy_lib [0x78, 0x9C, 0x01, 0x01, 0x00, 0xFE, 0xFF, 0x61, 0x00, 0x62, 0x00] = None"
    by (simp add: run)
  have c1: "zlib_Copy toy_lib [0x78, 0x9C, 0x01, 0x01, 0x00, 0xFE, 0xFF, 0x61, 0x00, 0x62, 0x00] =
              ([0x61], Some ''unexpected EOF'')"
    by (simp add: run)
  have r2: "zlib_NewReader toy_lib
              [0x78, 0x9C, 0x01, 0x01, 0x00, 0xFE, 0xFF, 0x61, 0x00, 0x62, 0x00, 0x9D] = None"
    by (simp add: run)
  have c2: "zlib_Copy toy_lib
              [0x78, 0x9C, 0x01, 0x01, 0x00, 0xFE, 0xFF, 0x61, 0x00, 0x62, 0x00, 0x9D] =
              ([0x61], Some ''zlib: invalid checksum'')"
    by (simp add: run)
  note t1 = unexpected_EOF_counts_as_completion[OF toy_hasher_total reaches_inflate_trim,
      unfolded unmasked_trim, OF r1 c1]
  note t2 = unexpected_EOF_counts_as_completion[OF toy_hasher_total reaches_inflate_bad_sum,
      unfolded unmasked_bad_sum, OF r2 c2]
  from t1 t2 c1 c2 show ?thesis by (simp add: str_def)
qed

text \<open>
  C8. Whatever the text, the library and the secrets, \<^verbatim>\<open>deobfuscateData\<close> does not
  return an empty string with no error for a non-empty text; and when the run reaches
  the zlib reader and the copy leaves no byte in the buffer, it returns an error with
  the empty string.
\<close>

theorem empty_inflate_is_an_error:
  assumes "datum \<noteq> []"
  shows "returned (deobfuscateData L S datum) \<noteq> Some ([], None)
         \<and> (hasher_total L \<and> reaches_inflate L S datum env opened
              \<and> fst (zlib_Copy L (xor_bytes (secretKey L S) opened)) = []
             \<longrightarrow> (\<exists>err. returned (deobfuscateData L S datum) = Some ([], Some err)))"
proof (intro conjI impI)
  show "returned (deobfuscateData L S datum) \<noteq> Some ([], None)"
    using assms by (rule deobfuscateData_no_empty_success)
next
  assume a: "hasher_total L \<and> reaches_inflate L S datum env opened
              \<and> fst (zlib_Copy L (xor_bytes (secretKey L S) opened)) = []"
  then have p: "datum \<noteq> []"
    "hexDecode_bytes datum = Some (xor_bytes (tossKey S) env)" "tossKey S \<noteq> []"
    "secretKey L S \<noteq> []" "returned (decryptString L (byteKey S) env) = Some opened"
    and h: "hasher_total L"
    by (simp_all add: reaches_inflate_def)
  have "returned (deobfuscateData L S datum) =
          returned (inflateConfig L (xor_bytes (secretKey L S) opened))"
    by (rule deobfuscateData_inflate[OF p(1,2,3) h p(4,5)])
  with a show "\<exists>err. returned (deobfuscateData L S datum) = Some ([], Some err)"
    by (simp add: inflateConfig_empty_copy)
qed

theorem empty_inflate_is_an_error_witness:
  "artifact_empty \<noteq> []
   \<and> zlib_Copy toy_lib [0x78, 0x9C, 0x01, 0x00, 0x00, 0xFF, 0xFF, 0x00, 0x00, 0x00, 0x01] =
       ([], None)
   \<and> returned (deobfuscateData toy_lib source_secrets artifact_empty) =
       Some ([], Some ''decrypted config is empty'')"
proof -
  have ne: "artifact_empty \<noteq> []" by (simp add: data str_def)
  have c: "zlib_Copy toy_lib [0x78, 0x9C, 0x01, 0x00, 0x00, 0xFF, 0xFF, 0x00, 0x00, 0x00, 0x01] =
             ([], None)"
    by (simp add: run)
  have r: "zlib_NewReader toy_lib [0x78, 0x9C, 0x01, 0x00, 0x00, 0xFF, 0xFF, 0x00, 0x00, 0x00, 0x01] =
             None"
    by (simp add: run)
  from empty_inflate_is_an_error[OF ne, of toy_lib source_secrets envelope_empty
      "[0x31, 0x47, 0x6C, 0xFF, 0x91, 0xDC, 0x4A, 0x47, 0xD9, 0x6B, 0xFC]"]
    toy_hasher_total reaches_inflate_empty c
  obtain err where e: "returned (deobfuscateData toy_lib source_secrets artifact_empty) =
      Some ([], Some err)"
    by (auto simp: unmasked_empty)
  have "returned (deobfuscateData toy_lib source_secrets artifact_empty) =
      returned (inflateConfig toy_lib [0x78, 0x9C, 0x01, 0x00, 0x00, 0xFF, 0xFF, 0x00, 0x00, 0x00, 0x01])"
    using deobfuscateData_inflate[of artifact_empty source_secrets envelope_empty toy_lib
        "[0x31, 0x47, 0x6C, 0xFF, 0x91, 0xDC, 0x4A, 0x47, 0xD9, 0x6B, 0xFC]"]
      reaches_inflate_empty toy_hasher_total
    by (simp add: reaches_inflate_def unmasked_empty)
  with e have "err = ''decrypted config is empty''"
    by (simp add: returned_inflateConfig[OF r c])
  with e ne c show ?thesis by simp
qed

section \<open>Failed authentication\<close>

text \<open>
  C3, as the claim states it, fails: \<^verbatim>\<open>decryptString\<close> has a string as its only
  result, and for an envelope whose tag does not verify it returns the empty string.
  Here the last byte of the tag of a sealed envelope is changed.
\<close>

theorem failed_open_returns_empty_string:
  "gcm_Open toy_lib (sha256_Sum toy_lib [0x01]) (take 12 envelope_bad_tag)
     (drop 12 envelope_bad_tag) = Inl ''cipher: message authentication failed''
   \<and> decryptString toy_lib [0x01] envelope_bad_tag =
       Done [] [HashStage, CipherInit, CipherInit, OpenStage, LogCall]"
  using open_bad_tag run_decrypt_bad_tag by simp

text \<open>
  C3, amended. For every envelope of at least 12 bytes whose tag does not verify under
  the key, \<^verbatim>\<open>decryptString\<close> logs the failure and returns the empty string, with no
  error of its own; the explicit error is the one its caller \<^verbatim>\<open>decryptConfig\<close> returns,
  \<^verbatim>\<open>error creating zlib reader\<close>, since no zlib reader can be made over the empty
  string.
\<close>

theorem failed_open_is_logged_and_surfaces_in_decryptConfig:
  assumes "hasher_total L" and "digest_32 L" and "cipher_ready L" and "zlib_needs_header L"
    and "12 \<le> length ct"
    and "gcm_Open L (sha256_Sum L (byteKey S)) (take 12 ct) (drop 12 ct) = Inl m"
  shows "decryptString L (byteKey S) ct =
           Done [] [HashStage, CipherInit, CipherInit, OpenStage, LogCall]
         \<and> returned (decryptConfig L S ct) = Some ([], Some ''error creating zlib reader'')"
  using decryptString_auth_failure[OF assms(1,2,3,5,6)]
    decryptConfig_auth_failure[OF assms]
  by simp

theorem failed_open_is_logged_and_surfaces_in_decryptConfig_witness:
  "12 \<le> length envelope_bad_tag
   \<and> gcm_Open toy_lib (sha256_Sum toy_lib (byteKey source_secrets)) (take 12 envelope_bad_tag)
       (drop 12 envelope_bad_tag) = Inl ''cipher: message authentication failed''
   \<and> decryptString toy_lib (byteKey source_secrets) envelope_bad_tag =
       Done [] [HashStage, CipherInit, CipherInit, OpenStage, LogCall]
   \<and> returned (decryptConfig toy_lib source_secrets envelope_bad_tag) =
       Some ([], Some ''error creating zlib reader'')"
proof -
  have l: "12 \<le> length envelope_bad_tag" by (simp add: data)
  have o: "gcm_Open toy_lib (sha256_Sum toy_lib (byteKey source_secrets))
             (take 12 envelope_bad_tag) (drop 12 envelope_bad_tag) =
           Inl ''cipher: message authentication failed''"
    using open_bad_tag by (simp add: source_secrets_def)
  from failed_open_is_logged_and_surfaces_in_decryptConfig[OF toy_hasher_total toy_digest_32
      toy_cipher_ready toy_zlib_needs_header l o] l o
  show ?thesis by simp
qed

section \<open>A changed artifact\<close>

text \<open>
  C2, as the claim states it, fails. The string \<^verbatim>\<open>a\<close> is obfuscated and one byte of
  the artifact is changed. With the first byte in the other letter case the text is
  hexadecimal for the same bytes, and \<^verbatim>\<open>deobfuscateData\<close> returns the value with no
  error. With the first byte changed to \<^verbatim>\<open>g\<close> the error comes from the hexadecimal
  decoder and the cipher is never called. With the last byte changed the tag no longer
  verifies, the failure is logged, and the error returned is
  \<^verbatim>\<open>error creating zlib reader\<close>. No run returns an authentication error.
\<close>

theorem changed_artifact_gives_no_authentication_error:
  "obfuscateData toy_lib source_secrets (str ''a'') =
     Done (artifact_a, None)
       [HashStage, DeflateStage, XorStage, HashStage, CipherInit, RandomStage, CipherInit,
        SealStage, XorStage, HexEncodeStage]
   \<and> artifact_other_case = artifact_a[0 := 0x41]
   \<and> deobfuscateData toy_lib source_secrets artifact_other_case =
       Done (str ''a'', None)
         [HexDecodeStage, XorStage, HashStage, HashStage, CipherInit, CipherInit, OpenStage,
          XorStage, InflateStage]
   \<and> artifact_bad_digit = artifact_a[0 := 0x67]
   \<and> map_option snd (returned (deobfuscateData toy_lib source_secrets artifact_bad_digit)) =
       Some (Some ''hex: odd length or invalid digit'')
   \<and> events (deobfuscateData toy_lib source_secrets artifact_bad_digit) =
       [HexDecodeStage, LogCall]
   \<and> artifact_bad_tag = artifact_a[87 := 0x61]
   \<and> deobfuscateData toy_lib source_secrets artifact_bad_tag =
       Done ([], Some ''error creating zlib reader'')
         [HexDecodeStage, XorStage, HashStage, HashStage, CipherInit, CipherInit, OpenStage,
          LogCall, XorStage, InflateStage, LogCall]"
proof -
  have "artifact_bad_digit = artifact_a[0 := 0x67]"
    by (simp add: data str_def)
  moreover have "artifact_bad_tag = artifact_a[87 := 0x61]"
    by (simp add: data str_def)
  moreover have "artifact_other_case = artifact_a[0 := 0x41]"
    by (simp add: artifact_other_case_def data str_def)
  ultimately show ?thesis
    using run_obfuscate_a run_bad_digit run_bad_tag run_other_case by simp
qed

text \<open>
  C2, amended. \<^verbatim>\<open>obfuscateData\<close> succeeded on a non-empty value, and one byte of the
  artifact is changed to another byte \<open>b\<close>. When \<open>b\<close> is no hexadecimal digit,
  \<^verbatim>\<open>deobfuscateData\<close> returns an error after the decoder and the logger alone have
  run. When \<open>b\<close> is a digit of the same value as the byte it replaces, the run is the
  run on the unchanged artifact. In every other case one byte of the envelope has
  changed: with a cipher that rejects such an envelope, \<^verbatim>\<open>decryptString\<close> logs the
  failure after \<^verbatim>\<open>Open\<close>, and \<^verbatim>\<open>deobfuscateData\<close> returns the error
  \<^verbatim>\<open>error creating zlib reader\<close> with the empty string: the error of the cipher is not
  what the caller gets, and no plaintext is returned.
\<close>

theorem one_changed_byte_of_the_artifact:
  assumes "hasher_total L" and "digest_32 L" and "cipher_ready L" and "nonce_12 L"
    and "zlib_needs_header L" and "tamper_evident L (sha256_Sum L (byteKey S))"
    and "v \<noteq> []" and "returned (obfuscateData L S v) = Some (a, None)"
    and "i < length a" and "b \<noteq> a ! i"
  shows "(fromHexChar b = None \<longrightarrow>
            (\<exists>d err. deobfuscateData L S (a[i := b]) =
                       Done (d, Some err) [HexDecodeStage, LogCall]))
         \<and> (fromHexChar b = fromHexChar (a ! i) \<longrightarrow>
              deobfuscateData L S (a[i := b]) = deobfuscateData L S a)
         \<and> (fromHexChar b \<noteq> None \<and> fromHexChar b \<noteq> fromHexChar (a ! i) \<longrightarrow>
              deobfuscateData L S (a[i := b]) =
                Done ([], Some ''error creating zlib reader'')
                  ([HexDecodeStage, XorStage] @ events (deriveKey L S)
                   @ [HashStage, CipherInit, CipherInit, OpenStage, LogCall, XorStage,
                      InflateStage, LogCall]))"
proof -
  from assms(4) obtain nonce where nonce: "rand_ReadFull L 12 = Inr nonce" "length nonce = 12"
    by (auto simp: nonce_12_def)
  define k where "k = sha256_Sum L (byteKey S)"
  from obfuscateData_success[OF assms(1-3) nonce assms(7,8)]
  obtain c where tk: "tossKey S \<noteq> []"
    and a: "a = hexEncode_bytes (xor_bytes (tossKey S)
              (nonce @ gcm_Seal L k nonce (padded (xor_bytes (secretKey L S) c))))"
    by (auto simp: k_def)
  define env where "env = nonce @ gcm_Seal L k nonce (padded (xor_bytes (secretKey L S) c))"
  define m where "m = xor_bytes (tossKey S) env"
  have am: "a = hexEncode_bytes m" by (simp add: a m_def env_def)
  have i2: "i < 2 * length m" using assms(9) by (simp add: am length_hexEncode_bytes)
  then have j: "i div 2 < length m" by simp
  have old: "fromHexChar (a ! i) = Some (nibble_at m i)"
    by (simp add: am nth_hexEncode_bytes[OF i2] fromHexChar_hexDigit nibble_at_less)
  have dec: "hexDecode_bytes (a[i := b]) =
      (case fromHexChar b of
         None \<Rightarrow> None
       | Some d \<Rightarrow> Some (m[i div 2 := with_nibble (m ! (i div 2)) i d]))"
    unfolding am by (rule hexDecode_bytes_update[OF i2])
  have ne: "a \<noteq> []" "a[i := b] \<noteq> []" using assms(9) by auto
  have um: "xor_bytes (tossKey S) m = env" by (simp add: m_def xor_bytes_involution)
  have first: "\<exists>d err. deobfuscateData L S (a[i := b]) = Done (d, Some err) [HexDecodeStage, LogCall]"
    if "fromHexChar b = None"
  proof -
    from that dec have "hexDecode_bytes (a[i := b]) = None" by simp
    from deobfuscateData_bad_hex[OF ne(2) this] show ?thesis by blast
  qed
  have second: "deobfuscateData L S (a[i := b]) = deobfuscateData L S a"
    if "fromHexChar b = fromHexChar (a ! i)"
  proof -
    from that old dec have "hexDecode_bytes (a[i := b]) =
        Some (m[i div 2 := with_nibble (m ! (i div 2)) i (nibble_at m i)])"
      by simp
    then have "hexDecode_bytes (a[i := b]) = Some m"
      by (simp add: with_nibble_same)
    then have "hexDecode_bytes (a[i := b]) = hexDecode_bytes a"
      by (simp add: am hexDecode_hexEncode)
    with ne show ?thesis by (intro deobfuscateData_same_bytes)
  qed
  have third: "deobfuscateData L S (a[i := b]) =
      Done ([], Some ''error creating zlib reader'')
        ([HexDecodeStage, XorStage] @ events (deriveKey L S)
         @ [HashStage, CipherInit, CipherInit, OpenStage, LogCall, XorStage,
            InflateStage, LogCall])"
    if "fromHexChar b \<noteq> None \<and> fromHexChar b \<noteq> fromHexChar (a ! i)"
  proof -
    from that obtain d where d: "fromHexChar b = Some d" and dn: "d \<noteq> nibble_at m i"
      using old by auto
    from d have d16: "d < 16" by (rule fromHexChar_less)
    define y where "y = with_nibble (m ! (i div 2)) i d"
    define z where "z = y XOR (tossKey S ! (i div 2 mod length (tossKey S)))"
    have yn: "y \<noteq> m ! (i div 2)"
      unfolding y_def by (rule with_nibble_other[OF d16 dn])
    have dm: "hexDecode_bytes (a[i := b]) = Some (m[i div 2 := y])"
      using dec d by (simp add: y_def)
    have ue: "xor_bytes (tossKey S) (m[i div 2 := y]) = env[i div 2 := z]"
      by (simp add: xor_bytes_update[OF j] um z_def)
    have je: "i div 2 < length env" using j by (simp add: m_def)
    have "env ! (i div 2) = (m ! (i div 2)) XOR (tossKey S ! (i div 2 mod length (tossKey S)))"
      using nth_xor_bytes[OF j, of "tossKey S"] by (simp add: um)
    with yn have zn: "z \<noteq> env ! (i div 2)"
      by (auto simp: z_def dest: xor_cancel_right)
    from assms(6) nonce(2) je zn
    obtain mm where "gcm_Open L k (take 12 (env[i div 2 := z])) (drop 12 (env[i div 2 := z])) = Inl mm"
      unfolding tamper_evident_def k_def[symmetric] env_def by blast
    then have op: "gcm_Open L (sha256_Sum L (byteKey S))
        (take 12 (xor_bytes (tossKey S) (m[i div 2 := y])))
        (drop 12 (xor_bytes (tossKey S) (m[i div 2 := y]))) = Inl mm"
      by (simp add: ue k_def)
    have l12: "12 \<le> length (m[i div 2 := y])"
      using nonce(2) by (simp add: m_def env_def)
    from deobfuscateData_auth_failure_run[OF assms(1-3) assms(5) ne(2) dm tk l12 op]
    show ?thesis .
  qed
  from first second third show ?thesis by blast
qed

theorem one_changed_byte_of_the_artifact_witness:
  "returned (obfuscateData toy_lib source_secrets (str ''a'')) = Some (artifact_a, None)
   \<and> (\<exists>d err. deobfuscateData toy_lib source_secrets (artifact_a[0 := 0x67]) =
         Done (d, Some err) [HexDecodeStage, LogCall])
   \<and> deobfuscateData toy_lib source_secrets (artifact_a[0 := 0x41]) =
       deobfuscateData toy_lib source_secrets artifact_a
   \<and> deobfuscateData toy_lib source_secrets (artifact_a[87 := 0x61]) =
       Done ([], Some ''error creating zlib reader'')
         [HexDecodeStage, XorStage, HashStage, HashStage, CipherInit, CipherInit, OpenStage,
          LogCall, XorStage, InflateStage, LogCall]"
proof -
  have v: "str ''a'' \<noteq> []" by (simp add: str_def)
  have r: "returned (obfuscateData toy_lib source_secrets (str ''a'')) = Some (artifact_a, None)"
    by (simp add: run_obfuscate_a)
  have i0: "0 < length artifact_a" and i87: "87 < length artifact_a"
    by (simp_all add: data str_def)
  have a0: "artifact_a ! 0 = 0x61" and a87: "artifact_a ! 87 = 0x62"
    by (simp_all add: data str_def)
  have ev: "events (deriveKey toy_lib source_secrets) = [HashStage]"
    by (simp add: run)
  note t = one_changed_byte_of_the_artifact[OF toy_hasher_total toy_digest_32 toy_cipher_ready
      toy_nonce_12 toy_zlib_needs_header toy_tamper_evident v r]
  have b1: "(0x67::byte) \<noteq> artifact_a ! 0" and b2: "(0x41::byte) \<noteq> artifact_a ! 0"
    and b3: "(0x61::byte) \<noteq> artifact_a ! 87"
    by (simp_all add: a0 a87)
  from t[OF i0 b1] have c1:
    "\<exists>d err. deobfuscateData toy_lib source_secrets (artifact_a[0 := 0x67]) =
       Done (d, Some err) [HexDecodeStage, LogCall]"
    by (simp add: fromHexChar_def)
  from t[OF i0 b2] have c2:
    "deobfuscateData toy_lib source_secrets (artifact_a[0 := 0x41]) =
       deobfuscateData toy_lib source_secrets artifact_a"
    by (simp add: a0 fromHexChar_def)
  from t[OF i87 b3] have c3:
    "deobfuscateData toy_lib source_secrets (artifact_a[87 := 0x61]) =
       Done ([], Some ''error creating zlib reader'')
         [HexDecodeStage, XorStage, HashStage, HashStage, CipherInit, CipherInit, OpenStage,
          LogCall, XorStage, InflateStage, LogCall]"
    by (simp add: a87 fromHexChar_def ev)
  from r c1 c2 c3 show ?thesis by blast
qed

section \<open>White space at the start of the plaintext\<close>

text \<open>
  C4 fails on the code: \<^verbatim>\<open>strings.TrimSpace\<close> trims both ends. When the cipher opens
  the envelope to a space, the letter \<^verbatim>\<open>a\<close> and 14 spaces of padding, \<^verbatim>\<open>decryptString\<close>
  returns the letter alone: the space before it is gone, although it stands before
  the last byte that is not white space.
\<close>

theorem leading_space_is_trimmed_too:
  assumes "hasher_total L" and "digest_32 L" and "cipher_ready L" and "12 \<le> length ct"
    and "gcm_Open L (sha256_Sum L pw) (take 12 ct) (drop 12 ct) =
           Inr (0x20 # 0x61 # replicate 14 0x20)"
  shows "returned (decryptString L pw ct) = Some [0x61]"
  using returned_decryptString[OF assms(1-4), of pw] assms(5)
  by (simp add: TrimSpace_space_a)

theorem leading_space_is_trimmed_too_witness:
  "12 \<le> length envelope_space_a
   \<and> gcm_Open toy_lib (sha256_Sum toy_lib [0x01]) (take 12 envelope_space_a)
       (drop 12 envelope_space_a) = Inr (str '' a              '')
   \<and> returned (decryptString toy_lib [0x01] envelope_space_a) = Some (str ''a'')"
proof -
  have l: "12 \<le> length envelope_space_a" by (simp add: data)
  from leading_space_is_trimmed_too[OF toy_hasher_total toy_digest_32 toy_cipher_ready l
      open_space_a] l open_space_a
  show ?thesis by (simp add: str_def replicate_numeral)
qed

section \<open>The round trip\<close>

text \<open>
  C1 fails on the code, for secrets the build can choose. The secret string has 64 bytes
  or more, so it is the XOR key as it stands, and it starts with \<^verbatim>\<open>X\<close> and \<^verbatim>\<open>a\<close>. The
  zlib stream starts with the header bytes \<open>78 9C\<close>, which the mask turns into a space
  and \<open>FD\<close>. \<^verbatim>\<open>strings.TrimSpace\<close> removes the space after decryption, the mask is
  then applied one byte off, and \<^verbatim>\<open>zlib.NewReader\<close> refuses the header: for every
  non-empty value, \<^verbatim>\<open>deobfuscateData\<close> of what \<^verbatim>\<open>obfuscateData\<close> made returns an error
  and the empty string, not the value.
\<close>

theorem leading_space_breaks_round_trip:
  assumes "hasher_total L" and "digest_32 L" and "cipher_ready L" and "aead_correct L"
    and "nonce_12 L" and "zlib_needs_deflate L"
    and "zlib_Write L v = Inr (0x78 # 0x9C # body)"
    and "randomString S = 0x58 # 0x61 # rest" and "64 \<le> length (randomString S)"
    and "tossKey S \<noteq> []" and "v \<noteq> []"
  shows "\<exists>a. returned (obfuscateData L S v) = Some (a, None)
           \<and> returned (deobfuscateData L S a) = Some ([], Some ''error creating zlib reader'')"
proof -
  from assms(5) obtain nonce where nonce: "rand_ReadFull L 12 = Inr nonce" "length nonce = 12"
    by (auto simp: nonce_12_def)
  have key: "secretKey L S = 0x58 # 0x61 # rest"
    using assms(8,9) by (simp add: secretKey_def)
  then have key_ne: "secretKey L S \<noteq> []" by simp
  define x where "x = xor_bytes (secretKey L S) (0x78 # 0x9C # body)"
  define k where "k = sha256_Sum L (byteKey S)"
  define env where "env = nonce @ gcm_Seal L k nonce (padded x)"
  define a where "a = hexEncode_bytes (xor_bytes (tossKey S) env)"
  have x: "x = 0x20 # 0xFD # xor_cycle (secretKey L S) rest body"
    unfolding x_def key by (simp add: xor_bytes_Cons2)
  have obf: "returned (obfuscateData L S v) = Some (a, None)"
    using returned_obfuscateData[OF assms(1-3) nonce(1) assms(7) key_ne assms(10,11)]
    by (simp add: a_def env_def k_def x_def)
  have "env \<noteq> []" using nonce(2) by (auto simp: env_def)
  then have a_ne: "a \<noteq> []"
    by (simp add: a_def hexEncode_bytes_Nil_iff xor_bytes_def)
  have dec: "hexDecode_bytes a = Some (xor_bytes (tossKey S) env)"
    by (simp add: a_def hexDecode_hexEncode)
  have len: "12 \<le> length env" using nonce(2) by (simp add: env_def)
  have opened: "gcm_Open L k (take 12 env) (drop 12 env) = Inr (padded x)"
    using assms(4) nonce(2) by (simp add: env_def aead_correct_def)
  obtain w where w: "TrimSpace (padded x) = 0xFD # w"
    using TrimSpace_space_FD[of "xor_cycle (secretKey L S) rest body @ replicate (16 - length x mod 16) 0x20"]
    by (auto simp: padded_def x)
  have "xor_bytes (secretKey L S) (0xFD # w) = 0xA5 # xor_cycle (secretKey L S) (0x61 # rest) w"
    unfolding key by (simp add: xor_bytes_Cons1)
  moreover have "zlib_NewReader L (0xA5 # xor_cycle (secretKey L S) (0x61 # rest) w) \<noteq> None"
    using assms(6) by (simp add: zlib_needs_deflate_def)
  ultimately have inf:
    "returned (inflateConfig L (xor_bytes (secretKey L S) (TrimSpace (padded x)))) =
       Some ([], Some ''error creating zlib reader'')"
    by (simp add: w inflateConfig_bad_header)
  have "returned (deobfuscateData L S a) = returned (decryptConfig L S env)"
    using returned_deobfuscateData[OF a_ne dec assms(10)] by (simp add: xor_bytes_involution)
  also have "\<dots> = Some ([], Some ''error creating zlib reader'')"
    using returned_decryptConfig[OF assms(1-3) len key_ne] opened inf
    by (simp add: k_def)
  finally show ?thesis using obf by blast
qed

theorem leading_space_breaks_round_trip_witness:
  "zlib_Write toy_lib (str ''a'') =
     Inr [0x78, 0x9C, 0x01, 0x01, 0x00, 0xFE, 0xFF, 0x61, 0x00, 0x62, 0x00, 0x62]
   \<and> returned (obfuscateData toy_lib space_secrets (str ''a'')) = Some (artifact_space, None)
   \<and> returned (deobfuscateData toy_lib space_secrets artifact_space) =
       Some ([], Some ''error creating zlib reader'')"
proof -
  have w: "zlib_Write toy_lib (str ''a'') =
      Inr (0x78 # 0x9C # [0x01, 0x01, 0x00, 0xFE, 0xFF, 0x61, 0x00, 0x62, 0x00, 0x62])"
    by (simp add: run)
  have r: "randomString space_secrets =
      0x58 # 0x61 # str ''aaaaaaaaaaaaaaaaaaaaaaaaaaaaaaaaaaaaaaaaaaaaaaaaaaaaaaaaaaaaaa''"
    by (simp add: space_secrets_def str_def)
  have n: "64 \<le> length (randomString space_secrets)"
    by (simp add: space_secrets_def str_def)
  have k: "tossKey space_secrets \<noteq> []" by (simp add: tossKey_def space_secrets_def)
  have v: "str ''a'' \<noteq> []" by (simp add: str_def)
  from leading_space_breaks_round_trip[OF toy_hasher_total toy_digest_32 toy_cipher_ready
      toy_aead_correct toy_nonce_12 toy_zlib_needs_deflate w r n k v]
  obtain a where a: "returned (obfuscateData toy_lib space_secrets (str ''a'')) = Some (a, None)"
    and e: "returned (deobfuscateData toy_lib space_secrets a) =
      Some ([], Some ''error creating zlib reader'')"
    by blast
  from a run_obfuscate_space have "a = artifact_space" by simp
  with a e w show ?thesis by simp
qed

section \<open>The round trip where white space does not interfere\<close>

lemma space_in_rune: "p \<in> set spaceRunes \<Longrightarrow> 0x20 \<in> set p \<Longrightarrow> p = [0x20]"
  by (auto simp: spaceRunes_def)

lemma leadingSpace_append_spaces:
  assumes "x \<noteq> []" and "leadingSpace x = None"
  shows "leadingSpace (x @ replicate n 0x20) = None"
proof -
  have "\<not> startsWith (x @ replicate n 0x20) p" if p: "p \<in> set spaceRunes" for p
  proof
    assume s: "startsWith (x @ replicate n 0x20) p"
    from assms(2) p have nx: "\<not> startsWith x p"
      by (auto simp: leadingSpace_def find_None_iff)
    show False
    proof (cases "length p \<le> length x")
      case True
      with s have "startsWith x p" by (simp add: startsWith_def)
      with nx show False ..
    next
      case False
      define k where "k = min (length p - length x) n"
      from s False have eq: "p = x @ replicate k 0x20"
        by (simp add: startsWith_def k_def min.commute)
      with False have "0 < k" by (cases k) auto
      with eq have "0x20 \<in> set p" by auto
      with p have "p = [0x20]" by (rule space_in_rune)
      with eq assms(1) \<open>0 < k\<close> show False
        by (cases x; cases k) auto
    qed
  qed
  then show ?thesis by (auto simp: leadingSpace_def find_None_iff)
qed

lemma TrimLeft_append_spaces:
  "x \<noteq> [] \<Longrightarrow> leadingSpace x = None \<Longrightarrow> TrimLeft (x @ replicate n 0x20) = x @ replicate n 0x20"
  by (simp add: TrimLeft.simps[of "x @ replicate n 0x20"] leadingSpace_append_spaces)

lemma trailingSpace_snoc_space: "trailingSpace (y @ [0x20]) = Some [0x20]"
  by (simp add: trailingSpace_def spaceRunes_def endsWith_def)

lemma TrimRight_snoc_space: "TrimRight (y @ [0x20]) = TrimRight y"
  by (simp add: TrimRight.simps[of "y @ [0x20]"] trailingSpace_snoc_space)

lemma TrimRight_append_spaces: "TrimRight (x @ replicate n 0x20) = TrimRight x"
proof (induction n)
  case 0
  then show ?case by simp
next
  case (Suc n)
  have "x @ replicate (Suc n) 0x20 = (x @ replicate n 0x20) @ [0x20]"
    by (simp add: replicate_append_same)
  then show ?case using Suc by (simp only: TrimRight_snoc_space)
qed

lemma TrimSpace_padded:
  assumes "x \<noteq> []" and "leadingSpace x = None" and "trailingSpace x = None"
  shows "TrimSpace (padded x) = x"
  using assms
  by (simp add: TrimSpace_def padded_def TrimLeft_append_spaces TrimRight_append_spaces
      TrimRight.simps[of x])

text \<open>
  For every non-empty value whose compressed and masked form does not start and does
  not end with a white-space rune, \<^verbatim>\<open>deobfuscateData\<close> of what \<^verbatim>\<open>obfuscateData\<close> made is the
  value again, with no error. The library keeps its contracts, and the zlib reader
  reads back what the zlib writer wrote for this value.
\<close>

theorem round_trip_without_space_at_the_ends:
  assumes "hasher_total L" and "digest_32 L" and "cipher_ready L" and "aead_correct L"
    and "nonce_12 L"
    and "zlib_Write L v = Inr c" and "zlib_NewReader L c = None" and "zlib_Copy L c = (v, None)"
    and "secretKey L S \<noteq> []" and "tossKey S \<noteq> []" and "v \<noteq> []" and "c \<noteq> []"
    and "leadingSpace (xor_bytes (secretKey L S) c) = None"
    and "trailingSpace (xor_bytes (secretKey L S) c) = None"
  shows "\<exists>a. returned (obfuscateData L S v) = Some (a, None)
           \<and> returned (deobfuscateData L S a) = Some (v, None)"
proof -
  from assms(5) obtain nonce where nonce: "rand_ReadFull L 12 = Inr nonce" "length nonce = 12"
    by (auto simp: nonce_12_def)
  define x where "x = xor_bytes (secretKey L S) c"
  define k where "k = sha256_Sum L (byteKey S)"
  define env where "env = nonce @ gcm_Seal L k nonce (padded x)"
  define a where "a = hexEncode_bytes (xor_bytes (tossKey S) env)"
  have x_ne: "x \<noteq> []" using assms(12) by (auto simp: x_def xor_bytes_def)
  have obf: "returned (obfuscateData L S v) = Some (a, None)"
    using returned_obfuscateData[OF assms(1-3) nonce(1) assms(6) assms(9,10,11)]
    by (simp add: a_def env_def k_def x_def)
  have "env \<noteq> []" using nonce(2) by (auto simp: env_def)
  then have a_ne: "a \<noteq> []"
    by (simp add: a_def hexEncode_bytes_Nil_iff xor_bytes_def)
  have dec: "hexDecode_bytes a = Some (xor_bytes (tossKey S) env)"
    by (simp add: a_def hexDecode_hexEncode)
  have len: "12 \<le> length env" using nonce(2) by (simp add: env_def)
  have opened: "gcm_Open L k (take 12 env) (drop 12 env) = Inr (padded x)"
    using assms(4) nonce(2) by (simp add: env_def aead_correct_def)
  have trim: "TrimSpace (padded x) = x"
    using x_ne assms(13,14) by (simp add: TrimSpace_padded x_def)
  have unmask: "xor_bytes (secretKey L S) x = c"
    by (simp add: x_def xor_bytes_involution)
  have inf: "returned (inflateConfig L c) = Some (v, None)"
    using assms(11) by (simp add: returned_inflateConfig[OF assms(7,8)])
  have "returned (deobfuscateData L S a) = returned (decryptConfig L S env)"
    using returned_deobfuscateData[OF a_ne dec assms(10)] by (simp add: xor_bytes_involution)
  also have "\<dots> = Some (v, None)"
    using returned_decryptConfig[OF assms(1-3) len assms(9)] opened trim unmask inf
    by (simp add: k_def)
  finally show ?thesis using obf by blast
qed

lemma masked_stream_a:
  "xor_bytes (secretKey toy_lib source_secrets)
     [0x78, 0x9C, 0x01, 0x01, 0x00, 0xFE, 0xFF, 0x61, 0x00, 0x62, 0x00, 0x62] =
   [0x31, 0x47, 0x6C, 0xFE, 0x91, 0xDD, 0x4A, 0x26, 0xD9, 0x09, 0xFD, 0xED]"
  by (simp add: run secretKey_def)

theorem round_trip_without_space_at_the_ends_witness:
  "zlib_Write toy_lib (str ''a'') =
     Inr [0x78, 0x9C, 0x01, 0x01, 0x00, 0xFE, 0xFF, 0x61, 0x00, 0x62, 0x00, 0x62]
   \<and> zlib_Copy toy_lib [0x78, 0x9C, 0x01, 0x01, 0x00, 0xFE, 0xFF, 0x61, 0x00, 0x62, 0x00, 0x62] =
       (str ''a'', None)
   \<and> returned (obfuscateData toy_lib source_secrets (str ''a'')) = Some (artifact_a, None)
   \<and> returned (deobfuscateData toy_lib source_secrets artifact_a) = Some (str ''a'', None)"
proof -
  let ?c = "[0x78, 0x9C, 0x01, 0x01, 0x00, 0xFE, 0xFF, 0x61, 0x00, 0x62, 0x00, 0x62] :: bytes"
  have w: "zlib_Write toy_lib (str ''a'') = Inr ?c" by (simp add: run)
  have r: "zlib_NewReader toy_lib ?c = None" by (simp add: run)
  have c: "zlib_Copy toy_lib ?c = (str ''a'', None)" by (simp add: run)
  have sk: "secretKey toy_lib source_secrets \<noteq> []"
    by (simp add: secretKey_def run)
  have tk: "tossKey source_secrets \<noteq> []" by (simp add: tossKey_def source_secrets_def)
  have v: "str ''a'' \<noteq> []" by (simp add: str_def)
  have ne: "?c \<noteq> []" by simp
  have l: "leadingSpace (xor_bytes (secretKey toy_lib source_secrets) ?c) = None"
    unfolding masked_stream_a by (simp add: run)
  have t: "trailingSpace (xor_bytes (secretKey toy_lib source_secrets) ?c) = None"
    unfolding masked_stream_a by (simp add: run)
  from round_trip_without_space_at_the_ends[OF toy_hasher_total toy_digest_32
      toy_cipher_ready toy_aead_correct toy_nonce_12 w r c sk tk v ne l t]
  obtain a where a: "returned (obfuscateData toy_lib source_secrets (str ''a'')) = Some (a, None)"
    and b: "returned (deobfuscateData toy_lib source_secrets a) = Some (str ''a'', None)"
    by blast
  from a run_obfuscate_a have "a = artifact_a" by simp
  with a b w c show ?thesis by simp
qed

end
